theory Spec2Isabelle
  imports Complex_Main "HOL-Library.Log_Nat"
begin

section \<open>Board data model\<close>

text \<open>
  The editor works on a fixed 4 x 4 grid. The TypeScript string-literal unions become
  datatypes (capitalised, since \<open>floor\<close> and \<open>None\<close> are taken in HOL); the structural
  types become records. A JavaScript \<open>number\<close> that is used as a grid coordinate or an
  array index is an \<open>int\<close>; every other \<open>number\<close> is a \<open>real\<close>, the value of a finite
  double (\<open>NaN\<close> and the infinities are outside this development), and the arithmetic
  on it rounds as the machine does, through \<open>fl\<close> below (the id counter of the placed
  models only ever holds small whole numbers, and its increment is exact). An optional
  property is an
  \<open>option\<close>: \<open>None\<close> stands both for an absent property and for one set to
  \<open>undefined\<close>. The \<open>url\<close> of a \<open>CustomPlacement\<close> is the one field \<open>importJson\<close>
  installs without a \<open>typeof\<close> test, so it is kept as the raw value.
\<close>

definition GRID_W :: int where
  "GRID_W = 4"

definition GRID_H :: int where
  "GRID_H = 4"

datatype CellType = Floor | Pit | Water

datatype EdgeType = ENone | Wall | Door

datatype ObjType = ONone | Lever | Trapdoor | Torch | Bridge | Light

datatype ToolMode = Cells | Edges | Objects

text \<open>
  A JavaScript value as \<open>JSON.parse\<close> builds it, with \<open>JUndefined\<close> for what reading
  an absent property gives. An object is the list of its properties in the order of the
  text; where a key comes twice the later one counts, as for \<open>JSON.parse\<close>.
\<close>

datatype jsval =
    JUndefined
  | JNull
  | JBool bool
  | JNum real
  | JStr string
  | JArr "jsval list"
  | JObj "(string \<times> jsval) list"

record LightProps =
  color :: string
  intensity :: real
  distance :: real
  decay :: real

record ObjectPlacement =
  type :: ObjType
  rotation :: nat
  light :: "LightProps option"

record CustomPlacement =
  c_id :: real
  c_name :: string
  c_url :: jsval
  c_x :: real
  c_y :: real
  c_scale :: real
  c_yOffset :: real
  c_rotation :: real

record BoardState =
  cells :: "CellType list"
  hEdges :: "EdgeType list"
  vEdges :: "EdgeType list"
  objects :: "ObjectPlacement list"

definition clamp :: "'a::linorder \<Rightarrow> 'a \<Rightarrow> 'a \<Rightarrow> 'a" where
  "clamp n a b = max a (min b n)"

definition idxCell :: "int \<Rightarrow> int \<Rightarrow> int" where
  "idxCell x y = y * GRID_W + x"

definition idxHEdge :: "int \<Rightarrow> int \<Rightarrow> int" where
  "idxHEdge x y = y * GRID_W + x"

definition idxVEdge :: "int \<Rightarrow> int \<Rightarrow> int" where
  "idxVEdge x y = y * (GRID_W + 1) + x"

definition emptyObject :: ObjectPlacement where
  "emptyObject = \<lparr>type = ONone, rotation = 0, light = None\<rparr>"

definition makeEmptyState :: BoardState where
  "makeEmptyState =
     \<lparr>cells = replicate (nat (GRID_W * GRID_H)) Floor,
      hEdges = replicate (nat ((GRID_H + 1) * GRID_W)) ENone,
      vEdges = replicate (nat (GRID_H * (GRID_W + 1))) ENone,
      objects = replicate (nat (GRID_W * GRID_H)) emptyObject\<rparr>"

subsection \<open>Array access\<close>

text \<open>
  \<open>a[i]\<close> read outside the array is \<open>undefined\<close> in JavaScript: \<open>js_get\<close> returns
  \<open>None\<close> there. A write outside the array would grow it (leaving holes), which a typed
  list cannot hold; the edit engine below stops with \<open>OutOfGrid\<close> at such a write. The
  grid-addressing contract says callers clamp first, and \<open>pickFromMouse\<close> does.
\<close>

definition in_bounds :: "'a list \<Rightarrow> int \<Rightarrow> bool" where
  "in_bounds xs i \<longleftrightarrow> 0 \<le> i \<and> i < int (length xs)"

definition js_get :: "'a list \<Rightarrow> int \<Rightarrow> 'a option" where
  "js_get xs i = (if in_bounds xs i then Some (xs ! nat i) else None)"

definition js_set :: "'a list \<Rightarrow> int \<Rightarrow> 'a \<Rightarrow> 'a list" where
  "js_set xs i v = xs[nat i := v]"

section \<open>Double-precision arithmetic\<close>

text \<open>
  A JavaScript \<open>+\<close>, \<open>-\<close>, \<open>*\<close> or \<open>/\<close> is the exact operation followed by rounding to
  the nearest double, ties to the even significand; a decimal literal such as \<open>0.18\<close> is
  the double nearest to it. \<open>fl x\<close> is that rounding: \<open>ilog2 x\<close> is the binary exponent
  of \<open>x\<close> (the \<open>e\<close> with \<open>2^e \<le> |x| < 2^(e+1)\<close>, found with integer arithmetic only),
  and \<open>x\<close> is scaled to a 53-bit significand, rounded to an integer by \<open>roundEven\<close>, and
  scaled back. The exponent is not bounded: overflow cannot happen in the code below for
  finite inputs, and a sum or difference of doubles that falls in the subnormal range is
  exact, so for every finite double the results are the machine's.
\<close>

definition ilog2 :: "real \<Rightarrow> int" where
  "ilog2 x =
     (if 1 \<le> \<bar>x\<bar> then bitlen \<lfloor>\<bar>x\<bar>\<rfloor> - 1 else - bitlen (\<lceil>1 / \<bar>x\<bar>\<rceil> - 1))"

definition roundEven :: "real \<Rightarrow> int" where
  "roundEven q =
     (if q - of_int \<lfloor>q\<rfloor> < 1 / 2 then \<lfloor>q\<rfloor>
      else if 1 / 2 < q - of_int \<lfloor>q\<rfloor> then \<lfloor>q\<rfloor> + 1
      else if even \<lfloor>q\<rfloor> then \<lfloor>q\<rfloor>
      else \<lfloor>q\<rfloor> + 1)"

definition fl :: "real \<Rightarrow> real" where
  "fl x =
     (if x = 0 then 0
      else of_int (roundEven (x * 2 powi (52 - ilog2 x))) * 2 powi (ilog2 x - 52))"

section \<open>Edit engine\<close>

datatype EdgeDir = H | V

datatype Pick = CellPick int int | EdgePick EdgeDir int int

text \<open>
  The status line. Each constructor is one of the messages the source passes to
  \<open>setStatus\<close>: \<open>CellaDipinta x y t\<close> is "Cella (x+1,y+1) = ...",
  \<open>PonteSoloAcquaBaratro\<close> is "Il ponte si puo piazzare solo su Acqua o Baratro.",
  \<open>ModalitaBordi\<close> is "Sei in modalita Bordi: per dipingere Acqua/Baratro passa a
  'Celle'.", \<open>CaricaOggetto\<close> is "Carica un oggetto prima di piazzarlo." and
  \<open>ResetCompletato\<close> is "Reset completato.". The timers that blank the line later are
  not modelled.
\<close>

datatype Status =
    CellaDipinta int int CellType
  | PonteSoloAcquaBaratro
  | ModalitaBordi
  | CaricaOggetto
  | ResetCompletato

record ToolConfig =
  mode :: ToolMode
  cellBrush :: CellType
  edgeBrush :: EdgeType
  objectBrush :: ObjType
  lightBrush :: LightProps
  customBrush :: "string option"
  customTemplates :: "string set"

record Editor =
  board :: BoardState
  customObjects :: "CustomPlacement list"
  selectedCustomId :: "real option"
  nextCustomId :: real
  selectedLightCell :: "int option"
  editingLight :: "LightProps option"
  status :: "Status option"

text \<open>
  What the function passed to \<open>setBoard\<close> returns: \<open>Prev\<close> is \<open>return prev\<close> (the very
  object it was given, so React keeps the old state), \<open>Next b\<close> is \<open>return next\<close> (the
  fresh copy, edited). \<open>OutOfGrid\<close> marks an index outside the array at a write or at a
  property read of \<open>next.objects[i]\<close>.
\<close>

datatype outcome = Prev | Next BoardState | OutOfGrid

definition clearLightSelection :: "int \<Rightarrow> Editor \<Rightarrow> Editor" where
  "clearLightSelection i ed =
     (if selectedLightCell ed = Some i
      then ed\<lparr>selectedLightCell := None, editingLight := None\<rparr>
      else ed)"

definition paintCell :: "ToolConfig \<Rightarrow> Editor \<Rightarrow> int \<Rightarrow> int \<Rightarrow> outcome \<times> Editor" where
  "paintCell cfg ed x y =
     (let prev = board ed; i = idxCell x y in
      if \<not> in_bounds (cells prev) i then (OutOfGrid, ed)
      else
        (Next (prev\<lparr>cells := js_set (cells prev) i (cellBrush cfg),
                    objects :=
                      (if cellBrush cfg = Floor
                          \<and> map_option type (js_get (objects prev) i) = Some Bridge
                       then js_set (objects prev) i emptyObject
                       else objects prev)\<rparr>),
         ed\<lparr>status := Some (CellaDipinta x y (cellBrush cfg))\<rparr>))"

definition placeObject :: "ToolConfig \<Rightarrow> Editor \<Rightarrow> int \<Rightarrow> int \<Rightarrow> outcome \<times> Editor" where
  "placeObject cfg ed x y =
     (let prev = board ed; i = idxCell x y; ed1 = ed\<lparr>selectedCustomId := None\<rparr> in
      if objectBrush cfg = Light then
        (case js_get (objects prev) i of
           None \<Rightarrow> (OutOfGrid, ed1)
         | Some prevLight \<Rightarrow>
             (Next (prev\<lparr>objects := js_set (objects prev) i
                      \<lparr>type = Light, rotation = rotation prevLight,
                       light = Some (lightBrush cfg)\<rparr>\<rparr>),
              ed1\<lparr>selectedLightCell := Some i, editingLight := Some (lightBrush cfg)\<rparr>))
      else if objectBrush cfg = Bridge
              \<and> js_get (cells prev) i \<noteq> Some Water \<and> js_get (cells prev) i \<noteq> Some Pit
      then (Prev, ed1\<lparr>status := Some PonteSoloAcquaBaratro\<rparr>)
      else if objectBrush cfg = ONone then
        (if \<not> in_bounds (objects prev) i then (OutOfGrid, ed1)
         else (Next (prev\<lparr>objects := js_set (objects prev) i emptyObject\<rparr>),
               clearLightSelection i ed1))
      else
        (case js_get (objects prev) i of
           None \<Rightarrow> (OutOfGrid, ed1)
         | Some ob \<Rightarrow>
             if type ob = objectBrush cfg
             then (Next (prev\<lparr>objects := js_set (objects prev) i
                           (ob\<lparr>rotation := (rotation ob + 90) mod 360\<rparr>)\<rparr>),
                   ed1)
             else (Next (prev\<lparr>objects := js_set (objects prev) i
                           (ob\<lparr>type := objectBrush cfg, rotation := 0, light := None\<rparr>)\<rparr>),
                   clearLightSelection i ed1)))"

definition toggle :: "EdgeType \<Rightarrow> EdgeType \<Rightarrow> EdgeType" where
  "toggle brush e = (if e = brush then ENone else brush)"

definition toggleEdge :: "ToolConfig \<Rightarrow> Editor \<Rightarrow> EdgeDir \<Rightarrow> int \<Rightarrow> int \<Rightarrow> outcome \<times> Editor" where
  "toggleEdge cfg ed dir x y =
     (let prev = board ed in
      if mode cfg \<noteq> Edges then (Prev, ed)
      else
        (case dir of
           H \<Rightarrow>
             (case js_get (hEdges prev) (idxHEdge x y) of
                None \<Rightarrow> (OutOfGrid, ed)
              | Some e \<Rightarrow>
                  (Next (prev\<lparr>hEdges :=
                           js_set (hEdges prev) (idxHEdge x y) (toggle (edgeBrush cfg) e)\<rparr>),
                   ed))
         | V \<Rightarrow>
             (case js_get (vEdges prev) (idxVEdge x y) of
                None \<Rightarrow> (OutOfGrid, ed)
              | Some e \<Rightarrow>
                  (Next (prev\<lparr>vEdges :=
                           js_set (vEdges prev) (idxVEdge x y) (toggle (edgeBrush cfg) e)\<rparr>),
                   ed))))"

text \<open>The function \<open>applyPick\<close> hands to \<open>setBoard\<close>, with the calls it makes on the way.\<close>

fun boardUpdater :: "ToolConfig \<Rightarrow> Editor \<Rightarrow> Pick \<Rightarrow> outcome \<times> Editor" where
  "boardUpdater cfg ed (CellPick x y) =
     (if mode cfg = Cells then paintCell cfg ed x y
      else if mode cfg = Objects then placeObject cfg ed x y
      else (Prev, ed\<lparr>status := Some ModalitaBordi\<rparr>))"
| "boardUpdater cfg ed (EdgePick dir x y) = toggleEdge cfg ed dir x y"

text \<open>
  The first branch of \<open>applyPick\<close>: placing or removing an imported model. \<open>customBrush\<close>
  must be truthy (set, and not the empty string).
\<close>

definition customPath :: "ToolConfig \<Rightarrow> Pick \<Rightarrow> bool" where
  "customPath cfg pick \<longleftrightarrow>
     mode cfg = Objects \<and> (case pick of CellPick _ _ \<Rightarrow> True | EdgePick _ _ _ \<Rightarrow> False)
     \<and> customBrush cfg \<noteq> None \<and> customBrush cfg \<noteq> Some [] \<and> objectBrush cfg = ONone"

definition toggleCustom :: "string \<Rightarrow> Editor \<Rightarrow> int \<Rightarrow> int \<Rightarrow> Editor" where
  "toggleCustom name ed x y =
     (case List.extract (\<lambda>c. c_x c = of_int x \<and> c_y c = of_int y) (customObjects ed) of
        Some (before, removed, after) \<Rightarrow>
          ed\<lparr>customObjects := before @ after,
             selectedCustomId :=
               (if selectedCustomId ed = Some (c_id removed) then None
                else selectedCustomId ed)\<rparr>
      | None \<Rightarrow>
          ed\<lparr>customObjects := customObjects ed @
               [\<lparr>c_id = nextCustomId ed, c_name = name, c_url = JStr name,
                 c_x = of_int x, c_y = of_int y, c_scale = 1, c_yOffset = 0,
                 c_rotation = 0\<rparr>],
             selectedCustomId := Some (nextCustomId ed),
             nextCustomId := nextCustomId ed + 1\<rparr>)"

definition applyPick :: "ToolConfig \<Rightarrow> Editor \<Rightarrow> Pick \<Rightarrow> Editor option" where
  "applyPick cfg ed pick =
     (if customPath cfg pick then
        (case (customBrush cfg, pick) of
           (Some name, CellPick x y) \<Rightarrow>
             if name \<notin> customTemplates cfg then Some (ed\<lparr>status := Some CaricaOggetto\<rparr>)
             else Some (toggleCustom name ed x y)
         | _ \<Rightarrow> Some ed)
      else
        (case boardUpdater cfg ed pick of
           (Prev, ed') \<Rightarrow> Some ed'
         | (Next b, ed') \<Rightarrow> Some (ed'\<lparr>board := b\<rparr>)
         | (OutOfGrid, ed') \<Rightarrow> None))"

text \<open>
  The other writers of the editor state: \<open>resetAll\<close>, and the two modes of
  \<open>handleCustomDrag\<close>, which move a placed model to the cell under the pointer or
  rescale it by the pointer's vertical travel \<open>dy\<close>.
\<close>

definition resetAll :: "Editor \<Rightarrow> Editor" where
  "resetAll ed = ed\<lparr>board := makeEmptyState, status := Some ResetCompletato\<rparr>"

definition dragMove :: "real \<Rightarrow> int \<Rightarrow> int \<Rightarrow> Editor \<Rightarrow> Editor" where
  "dragMove i x y ed =
     ed\<lparr>customObjects :=
          map (\<lambda>c. if c_id c = i then c\<lparr>c_x := of_int x, c_y := of_int y\<rparr> else c)
            (customObjects ed)\<rparr>"

definition dragScale :: "real \<Rightarrow> real \<Rightarrow> Editor \<Rightarrow> Editor" where
  "dragScale i dy ed =
     ed\<lparr>customObjects :=
          map (\<lambda>c. if c_id c = i
                   then c\<lparr>c_scale := clamp (fl (c_scale c + dy)) (fl (3 / 10)) 3\<rparr>
                   else c)
            (customObjects ed)\<rparr>"

subsection \<open>Editing sessions\<close>

text \<open>The state every \<open>useState\<close> hook starts from, around a given board.\<close>

definition initEditor :: "BoardState \<Rightarrow> Editor" where
  "initEditor b =
     \<lparr>board = b, customObjects = [], selectedCustomId = None, nextCustomId = 1,
      selectedLightCell = None, editingLight = None, status = None\<rparr>"

datatype Action =
    Edit ToolConfig Pick
  | DragMove real int int
  | DragScale real real
  | Reset

fun act :: "Editor \<Rightarrow> Action \<Rightarrow> Editor option" where
  "act ed (Edit cfg pick) = applyPick cfg ed pick"
| "act ed (DragMove i x y) = Some (dragMove i x y ed)"
| "act ed (DragScale i dy) = Some (dragScale i dy ed)"
| "act ed Reset = Some (resetAll ed)"

fun session :: "Editor \<Rightarrow> Action list \<Rightarrow> Editor option" where
  "session ed [] = Some ed"
| "session ed (a # rest) =
     (case act ed a of None \<Rightarrow> None | Some ed' \<Rightarrow> session ed' rest)"

text \<open>
  Tool settings as the hooks start them (default light brush, no imported model), with
  the mode and the three brushes chosen.
\<close>

definition toolCfg :: "ToolMode \<Rightarrow> CellType \<Rightarrow> EdgeType \<Rightarrow> ObjType \<Rightarrow> ToolConfig" where
  "toolCfg m c e ob =
     \<lparr>mode = m, cellBrush = c, edgeBrush = e, objectBrush = ob,
      lightBrush = \<lparr>color = ''#ffc878'', intensity = 15 / 2, distance = 16 / 5, decay = 2\<rparr>,
      customBrush = None, customTemplates = {}\<rparr>"

text \<open>Two boards for the examples: a wall on v-edge (2,1); a bridge over water at (1,1).\<close>

definition wallBoard :: BoardState where
  "wallBoard = makeEmptyState\<lparr>vEdges := js_set (vEdges makeEmptyState) (idxVEdge 2 1) Wall\<rparr>"

definition bridgeBoard :: BoardState where
  "bridgeBoard =
     makeEmptyState
       \<lparr>cells := js_set (cells makeEmptyState) (idxCell 1 1) Water,
        objects := js_set (objects makeEmptyState) (idxCell 1 1)
                     \<lparr>type = Bridge, rotation = 0, light = None\<rparr>\<rparr>"

section \<open>Picking protocol\<close>

definition cellSize :: real where
  "cellSize = 1"

definition halfW :: real where
  "halfW = fl (fl (of_int GRID_W * cellSize) / 2)"

definition halfH :: real where
  "halfH = fl (fl (of_int GRID_H * cellSize) / 2)"

text \<open>
  \<open>pickFromMouse\<close> from the point \<open>p = hits[0].point\<close> on: \<open>px\<close> is \<open>p.x\<close> and \<open>pz\<close> is
  \<open>p.z\<close>, two doubles. The ray cast that finds \<open>p\<close>, and the early returns when there
  is no hit, belong to the camera. Every operation of the source is there with its
  rounding; \<open>Math.floor\<close>, \<open>Math.max\<close> and \<open>Math.min\<close> are exact.
\<close>

definition pickFromMouse :: "ToolMode \<Rightarrow> real \<Rightarrow> real \<Rightarrow> Pick" where
  "pickFromMouse m px pz =
     (let lx = fl (px + halfW);
          lz = fl (pz + halfH);
          cx = clamp \<lfloor>fl (lx / cellSize)\<rfloor> 0 (GRID_W - 1);
          cy = clamp \<lfloor>fl (lz / cellSize)\<rfloor> 0 (GRID_H - 1);
          localX = fl (lx - fl (of_int cx * cellSize));
          localZ = fl (lz - fl (of_int cy * cellSize));
          edgeSnap = fl (fl (18 / 100) * cellSize);
          dLeft = localX;
          dRight = fl (cellSize - localX);
          dTop = localZ;
          dBottom = fl (cellSize - localZ);
          minD = min (min (min dLeft dRight) dTop) dBottom
      in
        if m \<noteq> Edges then CellPick cx cy
        else if minD \<le> edgeSnap then
          (if minD = dTop then EdgePick H cx cy
           else if minD = dBottom then EdgePick H cx (cy + 1)
           else if minD = dLeft then EdgePick V cx cy
           else EdgePick V (cx + 1) cy)
        else CellPick cx cy)"

definition getCellFromMouse :: "real \<Rightarrow> real \<Rightarrow> int \<times> int" where
  "getCellFromMouse px pz =
     (clamp \<lfloor>fl (fl (px + halfW) / cellSize)\<rfloor> 0 (GRID_W - 1),
      clamp \<lfloor>fl (fl (pz + halfH) / cellSize)\<rfloor> 0 (GRID_H - 1))"

section \<open>Persistence codec\<close>

subsection \<open>JavaScript values\<close>

text \<open>
  \<open>getProp v k\<close> is \<open>v.k\<close> (or \<open>v?.k\<close>) for the keys the codec reads, none of which is
  \<open>length\<close>: an object gives its property (the last one of that name) or
  \<open>undefined\<close>, anything else gives \<open>undefined\<close>. \<open>truthy\<close> is \<open>!!v\<close>, and \<open>typeofObject v\<close> is
  \<open>typeof v === "object"\<close>.
\<close>

fun getProp :: "jsval \<Rightarrow> string \<Rightarrow> jsval" where
  "getProp (JObj kvs) k = (case map_of (rev kvs) k of Some v \<Rightarrow> v | None \<Rightarrow> JUndefined)"
| "getProp _ k = JUndefined"

fun truthy :: "jsval \<Rightarrow> bool" where
  "truthy JUndefined = False"
| "truthy JNull = False"
| "truthy (JBool b) = b"
| "truthy (JNum n) = (n \<noteq> 0)"
| "truthy (JStr s) = (s \<noteq> [])"
| "truthy (JArr _) = True"
| "truthy (JObj _) = True"

fun typeofObject :: "jsval \<Rightarrow> bool" where
  "typeofObject JNull = True"
| "typeofObject (JArr _) = True"
| "typeofObject (JObj _) = True"
| "typeofObject _ = False"

subsection \<open>The typed values at run time\<close>

fun cell_js :: "CellType \<Rightarrow> jsval" where
  "cell_js Floor = JStr ''floor''"
| "cell_js Pit = JStr ''pit''"
| "cell_js Water = JStr ''water''"

fun edge_js :: "EdgeType \<Rightarrow> jsval" where
  "edge_js ENone = JStr ''none''"
| "edge_js Wall = JStr ''wall''"
| "edge_js Door = JStr ''door''"

fun objType_js :: "ObjType \<Rightarrow> jsval" where
  "objType_js ONone = JStr ''none''"
| "objType_js Lever = JStr ''lever''"
| "objType_js Trapdoor = JStr ''trapdoor''"
| "objType_js Torch = JStr ''torch''"
| "objType_js Bridge = JStr ''bridge''"
| "objType_js Light = JStr ''light''"

definition light_js :: "LightProps \<Rightarrow> jsval" where
  "light_js l =
     JObj [(''color'', JStr (color l)), (''intensity'', JNum (intensity l)),
           (''distance'', JNum (distance l)), (''decay'', JNum (decay l))]"

text \<open>
  An object placement as \<open>JSON.stringify\<close> writes it: a \<open>light\<close> that is absent or
  \<open>undefined\<close> leaves no property behind.
\<close>

definition object_js :: "ObjectPlacement \<Rightarrow> jsval" where
  "object_js ob =
     JObj ([(''type'', objType_js (type ob)), (''rotation'', JNum (of_nat (rotation ob)))]
           @ (case light ob of None \<Rightarrow> [] | Some l \<Rightarrow> [(''light'', light_js l)]))"

definition custom_js :: "CustomPlacement \<Rightarrow> jsval" where
  "custom_js c =
     JObj [(''id'', JNum (c_id c)), (''name'', JStr (c_name c)), (''url'', c_url c),
           (''x'', JNum (c_x c)), (''y'', JNum (c_y c)), (''scale'', JNum (c_scale c)),
           (''yOffset'', JNum (c_yOffset c)), (''rotation'', JNum (c_rotation c))]"

text \<open>
  The board \<open>importJson\<close> installs. Its annotation says \<open>BoardState\<close>, but the arrays are
  whatever the document held, so the entries stay raw values here.
\<close>

record LoadedBoard =
  l_cells :: "jsval list"
  l_hEdges :: "jsval list"
  l_vEdges :: "jsval list"
  l_objects :: "jsval list"

definition rawBoard :: "BoardState \<Rightarrow> LoadedBoard" where
  "rawBoard b =
     \<lparr>l_cells = map cell_js (cells b), l_hEdges = map edge_js (hEdges b),
      l_vEdges = map edge_js (vEdges b), l_objects = map object_js (objects b)\<rparr>"

subsection \<open>Export\<close>

text \<open>
  The document \<open>JSON.parse\<close> reads back from the text \<open>exportJson\<close> writes with
  \<open>JSON.stringify\<close>. The \<open>url\<close> of a placement is a string, or a value that came out of
  \<open>JSON.parse\<close> before, and passes through unchanged.
\<close>

definition exportJson :: "BoardState \<Rightarrow> CustomPlacement list \<Rightarrow> jsval" where
  "exportJson b cs =
     JObj [(''version'', JNum 1),
           (''board'',
              JObj [(''cells'', JArr (l_cells (rawBoard b))),
                    (''hEdges'', JArr (l_hEdges (rawBoard b))),
                    (''vEdges'', JArr (l_vEdges (rawBoard b))),
                    (''objects'', JArr (l_objects (rawBoard b)))]),
           (''customObjects'', JArr (map custom_js cs))]"

subsection \<open>Import\<close>

datatype ImportError = FormatoInvalido | BoardMancante

text \<open>\<open>Array.isArray(v) && v.length === n ? v : dflt\<close>\<close>

fun arrayOr :: "jsval \<Rightarrow> int \<Rightarrow> jsval list \<Rightarrow> jsval list" where
  "arrayOr (JArr xs) n dflt = (if int (length xs) = n then xs else dflt)"
| "arrayOr _ n dflt = dflt"

definition acceptsCustom :: "jsval \<Rightarrow> bool" where
  "acceptsCustom c \<longleftrightarrow>
     (case getProp c ''name'' of JStr _ \<Rightarrow> True | _ \<Rightarrow> False)
     \<and> (case getProp c ''x'' of JNum _ \<Rightarrow> True | _ \<Rightarrow> False)
     \<and> (case getProp c ''y'' of JNum _ \<Rightarrow> True | _ \<Rightarrow> False)"

definition numberOr :: "jsval \<Rightarrow> real \<Rightarrow> real" where
  "numberOr v dflt = (case v of JNum n \<Rightarrow> n | _ \<Rightarrow> dflt)"

definition stringOf :: "jsval \<Rightarrow> string" where
  "stringOf v = (case v of JStr s \<Rightarrow> s | _ \<Rightarrow> [])"

text \<open>
  One entry that passed the filter, with the id counter before and after:
  \<open>nextCustomIdRef.current++\<close> runs only when the entry has no numeric id.
\<close>

definition loadCustom :: "real \<Rightarrow> jsval \<Rightarrow> CustomPlacement \<times> real" where
  "loadCustom n c =
     (\<lparr>c_id = numberOr (getProp c ''id'') n,
       c_name = stringOf (getProp c ''name''),
       c_url = (case getProp c ''url'' of
                  JUndefined \<Rightarrow> getProp c ''name'' | JNull \<Rightarrow> getProp c ''name'' | u \<Rightarrow> u),
       c_x = clamp (numberOr (getProp c ''x'') 0) 0 (of_int (GRID_W - 1)),
       c_y = clamp (numberOr (getProp c ''y'') 0) 0 (of_int (GRID_H - 1)),
       c_scale = (case getProp c ''scale'' of JNum k \<Rightarrow> clamp k (fl (3 / 10)) 3 | _ \<Rightarrow> 1),
       c_yOffset = (case getProp c ''yOffset'' of JNum k \<Rightarrow> clamp k (- 1) 3 | _ \<Rightarrow> 0),
       c_rotation = numberOr (getProp c ''rotation'') 0\<rparr>,
      (case getProp c ''id'' of JNum _ \<Rightarrow> n | _ \<Rightarrow> n + 1))"

fun loadCustoms :: "real \<Rightarrow> jsval list \<Rightarrow> CustomPlacement list \<times> real" where
  "loadCustoms n [] = ([], n)"
| "loadCustoms n (c # cs) =
     (let (p, n1) = loadCustom n c; (ps, n2) = loadCustoms n1 cs in (p # ps, n2))"

record Loaded =
  ld_board :: LoadedBoard
  ld_customObjects :: "CustomPlacement list"
  ld_nextCustomId :: real

text \<open>
  The body of the \<open>try\<close> in \<open>importJson\<close>, from the parsed document on. The arguments
  are the placement list and the id counter as they stand before the load. \<open>Inl\<close> is a
  \<open>throw\<close>: the \<open>catch\<close> then shows "Errore nel caricare il JSON." and no state hook is
  written. \<open>Inr\<close> is what the setters receive; the three selections are cleared and
  the status reads "Dungeon caricato.".
\<close>

definition importJson :: "CustomPlacement list \<Rightarrow> real \<Rightarrow> jsval \<Rightarrow> ImportError + Loaded" where
  "importJson prevCustom nextId data =
     (if \<not> truthy data \<or> \<not> typeofObject data then Inl FormatoInvalido
      else if \<not> truthy (getProp data ''board'')
              \<or> \<not> truthy (getProp (getProp data ''board'') ''cells'')
              \<or> \<not> truthy (getProp (getProp data ''board'') ''hEdges'')
              \<or> \<not> truthy (getProp (getProp data ''board'') ''vEdges'')
              \<or> \<not> truthy (getProp (getProp data ''board'') ''objects'')
      then Inl BoardMancante
      else
        (let b = getProp data ''board'';
             nextBoard =
               \<lparr>l_cells = arrayOr (getProp b ''cells'') (GRID_W * GRID_H)
                            (l_cells (rawBoard makeEmptyState)),
                l_hEdges = arrayOr (getProp b ''hEdges'') ((GRID_H + 1) * GRID_W)
                             (l_hEdges (rawBoard makeEmptyState)),
                l_vEdges = arrayOr (getProp b ''vEdges'') (GRID_H * (GRID_W + 1))
                             (l_vEdges (rawBoard makeEmptyState)),
                l_objects = arrayOr (getProp b ''objects'') (GRID_W * GRID_H)
                              (l_objects (rawBoard makeEmptyState))\<rparr>
         in
           (case getProp data ''customObjects'' of
              JArr cs \<Rightarrow>
                (let (ps, n) = loadCustoms nextId (filter acceptsCustom cs)
                 in Inr \<lparr>ld_board = nextBoard, ld_customObjects = ps, ld_nextCustomId = n\<rparr>)
            | _ \<Rightarrow>
                Inr \<lparr>ld_board = nextBoard, ld_customObjects = prevCustom,
                     ld_nextCustomId = nextId\<rparr>)))"

subsection \<open>Reading a loaded board at its declared type\<close>

text \<open>
  The declared types, as tests on raw values: \<open>CellType\<close> is one of three strings,
  \<open>rotation\<close> one of four numbers, \<open>light\<close> optional. \<open>typedBoard\<close> gives the
  \<open>BoardState\<close> a loaded board is, when every entry has its declared type.
\<close>

fun cell_of_js :: "jsval \<Rightarrow> CellType option" where
  "cell_of_js (JStr s) =
     (if s = ''floor'' then Some Floor else if s = ''pit'' then Some Pit
      else if s = ''water'' then Some Water else None)"
| "cell_of_js _ = None"

fun edge_of_js :: "jsval \<Rightarrow> EdgeType option" where
  "edge_of_js (JStr s) =
     (if s = ''none'' then Some ENone else if s = ''wall'' then Some Wall
      else if s = ''door'' then Some Door else None)"
| "edge_of_js _ = None"

fun objType_of_js :: "jsval \<Rightarrow> ObjType option" where
  "objType_of_js (JStr s) =
     (if s = ''none'' then Some ONone else if s = ''lever'' then Some Lever
      else if s = ''trapdoor'' then Some Trapdoor else if s = ''torch'' then Some Torch
      else if s = ''bridge'' then Some Bridge else if s = ''light'' then Some Light
      else None)"
| "objType_of_js _ = None"

fun rotation_of_js :: "jsval \<Rightarrow> nat option" where
  "rotation_of_js (JNum r) =
     (if r = 0 then Some 0 else if r = 90 then Some 90
      else if r = 180 then Some 180 else if r = 270 then Some 270 else None)"
| "rotation_of_js _ = None"

definition light_of_js :: "jsval \<Rightarrow> LightProps option" where
  "light_of_js v =
     (case (getProp v ''color'', getProp v ''intensity'', getProp v ''distance'', getProp v ''decay'') of
        (JStr c, JNum i, JNum d, JNum k) \<Rightarrow>
          Some \<lparr>color = c, intensity = i, distance = d, decay = k\<rparr>
      | _ \<Rightarrow> None)"

definition object_of_js :: "jsval \<Rightarrow> ObjectPlacement option" where
  "object_of_js v =
     (case (objType_of_js (getProp v ''type''), rotation_of_js (getProp v ''rotation'')) of
        (Some t, Some r) \<Rightarrow>
          (case getProp v ''light'' of
             JUndefined \<Rightarrow> Some \<lparr>type = t, rotation = r, light = None\<rparr>
           | l \<Rightarrow>
               (case light_of_js l of
                  Some lp \<Rightarrow> Some \<lparr>type = t, rotation = r, light = Some lp\<rparr>
                | None \<Rightarrow> None))
      | _ \<Rightarrow> None)"

definition typedBoard :: "LoadedBoard \<Rightarrow> BoardState option" where
  "typedBoard lb =
     (case (those (map cell_of_js (l_cells lb)), those (map edge_of_js (l_hEdges lb)),
            those (map edge_of_js (l_vEdges lb)), those (map object_of_js (l_objects lb))) of
        (Some cs, Some hs, Some vs, Some os) \<Rightarrow>
          Some \<lparr>cells = cs, hEdges = hs, vEdges = vs, objects = os\<rparr>
      | _ \<Rightarrow> None)"

text \<open>Documents for the examples of the codec.\<close>

definition boardDoc :: "jsval list \<Rightarrow> jsval list \<Rightarrow> jsval list \<Rightarrow> jsval list \<Rightarrow> jsval" where
  "boardDoc cs hs vs os =
     JObj [(''version'', JNum 1),
           (''board'',
              JObj [(''cells'', JArr cs), (''hEdges'', JArr hs), (''vEdges'', JArr vs),
                    (''objects'', JArr os)])]"

definition noCellsDoc :: jsval where
  "noCellsDoc =
     JObj [(''version'', JNum 1),
           (''board'',
              JObj [(''hEdges'', JArr (replicate 20 (JStr ''none''))),
                    (''vEdges'', JArr (replicate 20 (JStr ''none''))),
                    (''objects'',
                       JArr (replicate 16
                         (JObj [(''type'', JStr ''none''), (''rotation'', JNum 0)])))])]"

definition leverJs :: jsval where
  "leverJs = JObj [(''type'', JStr ''lever''), (''rotation'', JNum 90)]"

definition litLeverJs :: jsval where
  "litLeverJs =
     JObj [(''type'', JStr ''lever''), (''rotation'', JNum 0),
           (''light'',
              JObj [(''color'', JStr ''#ffffff''), (''intensity'', JNum 1),
                    (''distance'', JNum 1), (''decay'', JNum 2)])]"

definition darkLightJs :: jsval where
  "darkLightJs = JObj [(''type'', JStr ''light''), (''rotation'', JNum 0)]"

definition shortCellsDoc :: jsval where
  "shortCellsDoc =
     boardDoc (replicate 10 (JStr ''water''))
       (JStr ''wall'' # replicate 19 (JStr ''none''))
       (JStr ''door'' # replicate 19 (JStr ''none''))
       (leverJs # replicate 15 (object_js emptyObject))"

definition litLeverDoc :: jsval where
  "litLeverDoc =
     boardDoc (replicate 16 (JStr ''floor'')) (replicate 20 (JStr ''none''))
       (replicate 20 (JStr ''none''))
       (litLeverJs # darkLightJs # replicate 14 (object_js emptyObject))"

definition lavaDoc :: jsval where
  "lavaDoc =
     boardDoc (JStr ''lava'' # replicate 15 (JStr ''floor'')) (replicate 20 (JStr ''none''))
       (replicate 20 (JNum 7))
       (replicate 16 (JObj [(''type'', JStr ''torch''), (''rotation'', JNum 45)]))"

text \<open>
  A short session for the examples: paint (1,1) water, put a bridge on it, place the
  imported model "chest" at (3,0), then drag its scale up past the limit.
\<close>

definition chestCfg :: ToolConfig where
  "chestCfg =
     (toolCfg Objects Floor Wall ONone)
       \<lparr>customBrush := Some ''chest'', customTemplates := {''chest''}\<rparr>"

definition demoActions :: "Action list" where
  "demoActions =
     [Edit (toolCfg Cells Water Wall Lever) (CellPick 1 1),
      Edit (toolCfg Objects Floor Wall Bridge) (CellPick 1 1),
      Edit chestCfg (CellPick 3 0),
      DragScale 1 5]"

section \<open>Properties of boards, picks and sessions\<close>

definition wf_board :: "BoardState \<Rightarrow> bool" where
  "wf_board b \<longleftrightarrow>
     int (length (cells b)) = GRID_W * GRID_H
     \<and> int (length (hEdges b)) = (GRID_H + 1) * GRID_W
     \<and> int (length (vEdges b)) = GRID_H * (GRID_W + 1)
     \<and> int (length (objects b)) = GRID_W * GRID_H"

definition in_grid :: "int \<Rightarrow> int \<Rightarrow> bool" where
  "in_grid x y \<longleftrightarrow> 0 \<le> x \<and> x < GRID_W \<and> 0 \<le> y \<and> y < GRID_H"

fun valid_pick :: "Pick \<Rightarrow> bool" where
  "valid_pick (CellPick x y) = in_grid x y"
| "valid_pick (EdgePick H x y) = (0 \<le> x \<and> x < GRID_W \<and> 0 \<le> y \<and> y \<le> GRID_H)"
| "valid_pick (EdgePick V x y) = (0 \<le> x \<and> x \<le> GRID_W \<and> 0 \<le> y \<and> y < GRID_H)"

fun valid_action :: "Action \<Rightarrow> bool" where
  "valid_action (Edit cfg pick) = valid_pick pick"
| "valid_action (DragMove i x y) = in_grid x y"
| "valid_action (DragScale i dy) = True"
| "valid_action Reset = True"

definition cellAt :: "BoardState \<Rightarrow> int \<Rightarrow> int \<Rightarrow> CellType option" where
  "cellAt b x y = js_get (cells b) (idxCell x y)"

definition objectAt :: "BoardState \<Rightarrow> int \<Rightarrow> int \<Rightarrow> ObjectPlacement option" where
  "objectAt b x y = js_get (objects b) (idxCell x y)"

definition edgeAt :: "BoardState \<Rightarrow> EdgeDir \<Rightarrow> int \<Rightarrow> int \<Rightarrow> EdgeType option" where
  "edgeAt b dir x y =
     (case dir of
        H \<Rightarrow> js_get (hEdges b) (idxHEdge x y)
      | V \<Rightarrow> js_get (vEdges b) (idxVEdge x y))"

text \<open>The light payload is there exactly on objects of type \<open>light\<close>.\<close>

definition light_ok :: "ObjectPlacement \<Rightarrow> bool" where
  "light_ok ob \<longleftrightarrow> (light ob \<noteq> None) = (type ob = Light)"

definition light_inv :: "BoardState \<Rightarrow> bool" where
  "light_inv b \<longleftrightarrow> list_all light_ok (objects b)"

definition rotation_ok :: "ObjectPlacement \<Rightarrow> bool" where
  "rotation_ok ob \<longleftrightarrow> rotation ob \<in> {0, 90, 180, 270}"

definition rotation_inv :: "BoardState \<Rightarrow> bool" where
  "rotation_inv b \<longleftrightarrow> list_all rotation_ok (objects b)"

text \<open>
  The three ways the board updater turns an edit down: the bridge brush over terrain
  that is neither water nor pit, a cell pick in edges mode, an edge pick outside it.
\<close>

definition rejected :: "ToolConfig \<Rightarrow> BoardState \<Rightarrow> Pick \<Rightarrow> bool" where
  "rejected cfg b pick =
     (case pick of
        CellPick x y \<Rightarrow>
          (mode cfg = Objects \<and> objectBrush cfg = Bridge
           \<and> cellAt b x y \<noteq> Some Water \<and> cellAt b x y \<noteq> Some Pit)
          \<or> mode cfg = Edges
      | EdgePick d x y \<Rightarrow> mode cfg \<noteq> Edges)"

text \<open>What import leaves untouched in a placement: the ranges it clamps into.\<close>

definition custom_ok :: "CustomPlacement \<Rightarrow> bool" where
  "custom_ok c \<longleftrightarrow>
     0 \<le> c_x c \<and> c_x c \<le> 3 \<and> 0 \<le> c_y c \<and> c_y c \<le> 3
     \<and> fl (3 / 10) \<le> c_scale c \<and> c_scale c \<le> 3
     \<and> - 1 \<le> c_yOffset c \<and> c_yOffset c \<le> 3
     \<and> c_url c = JStr (c_name c)"

text \<open>
  What every session of valid actions keeps true of the editor: the board has its four
  sizes, every rotation is one of the four angles, every placed model is in range.
\<close>

definition session_inv :: "Editor \<Rightarrow> bool" where
  "session_inv ed \<longleftrightarrow>
     wf_board (board ed) \<and> rotation_inv (board ed) \<and> list_all custom_ok (customObjects ed)"

section \<open>The board updater on a store\<close>

text \<open>
  The same updater once more, this time with the arrays and the object records as cells
  of a store, so that \<open>prev\<close> and \<open>next\<close> are references and a write is a write to one
  cell. A store is the list of the cells allocated so far and a reference is an index
  into it; allocation appends. A light payload is never written in place anywhere in
  the source (it is only ever replaced by a fresh object), so it stays a value inside
  its object record.
\<close>

type_synonym ref = nat

datatype hval =
    HCells "CellType list"
  | HEdges "EdgeType list"
  | HObject ObjectPlacement
  | HObjects "ref list"
  | HBoard ref ref ref ref

type_synonym store = "hval list"

definition readRef :: "store \<Rightarrow> ref \<Rightarrow> hval option" where
  "readRef h r = (if r < length h then Some (h ! r) else None)"

definition cellsRef :: "store \<Rightarrow> ref \<Rightarrow> ref option" where
  "cellsRef h b = (case readRef h b of Some (HBoard c _ _ _) \<Rightarrow> Some c | _ \<Rightarrow> None)"

definition hEdgesRef :: "store \<Rightarrow> ref \<Rightarrow> ref option" where
  "hEdgesRef h b = (case readRef h b of Some (HBoard _ e _ _) \<Rightarrow> Some e | _ \<Rightarrow> None)"

definition vEdgesRef :: "store \<Rightarrow> ref \<Rightarrow> ref option" where
  "vEdgesRef h b = (case readRef h b of Some (HBoard _ _ e _) \<Rightarrow> Some e | _ \<Rightarrow> None)"

definition objectsRef :: "store \<Rightarrow> ref \<Rightarrow> ref option" where
  "objectsRef h b = (case readRef h b of Some (HBoard _ _ _ os) \<Rightarrow> Some os | _ \<Rightarrow> None)"

definition cellsIn :: "store \<Rightarrow> ref \<Rightarrow> CellType list option" where
  "cellsIn h r = (case readRef h r of Some (HCells cs) \<Rightarrow> Some cs | _ \<Rightarrow> None)"

definition edgesIn :: "store \<Rightarrow> ref \<Rightarrow> EdgeType list option" where
  "edgesIn h r = (case readRef h r of Some (HEdges es) \<Rightarrow> Some es | _ \<Rightarrow> None)"

definition objectIn :: "store \<Rightarrow> ref \<Rightarrow> ObjectPlacement option" where
  "objectIn h r = (case readRef h r of Some (HObject ob) \<Rightarrow> Some ob | _ \<Rightarrow> None)"

definition objectRefsIn :: "store \<Rightarrow> ref \<Rightarrow> ref list option" where
  "objectRefsIn h r = (case readRef h r of Some (HObjects rs) \<Rightarrow> Some rs | _ \<Rightarrow> None)"

text \<open>The \<open>BoardState\<close> value a board reference stands for, if the store holds one there.\<close>

definition heapBoard :: "store \<Rightarrow> ref \<Rightarrow> BoardState option" where
  "heapBoard h b =
     (case (Option.bind (cellsRef h b) (cellsIn h), Option.bind (hEdgesRef h b) (edgesIn h),
            Option.bind (vEdgesRef h b) (edgesIn h),
            Option.bind (Option.bind (objectsRef h b) (objectRefsIn h))
              (\<lambda>rs. those (map (objectIn h) rs))) of
        (Some cs, Some hs, Some vs, Some obs) \<Rightarrow>
          Some \<lparr>cells = cs, hEdges = hs, vEdges = vs, objects = obs\<rparr>
      | _ \<Rightarrow> None)"

text \<open>
  The literal that builds \<open>next\<close>: three spread copies of the terrain and edge arrays, a
  fresh record for every object, the array of those records, and the board object
  itself, all newly allocated. The result is the reference \<open>next\<close> and the store.
\<close>

definition copyBoard :: "store \<Rightarrow> ref \<Rightarrow> (ref \<times> store) option" where
  "copyBoard h prev =
     (case heapBoard h prev of
        None \<Rightarrow> None
      | Some b \<Rightarrow>
          (let n = length h; k = length (objects b) in
           Some (n + k + 4,
                 h @ HCells (cells b) # HEdges (hEdges b) # HEdges (vEdges b)
                   # map HObject (objects b)
                   @ [HObjects [n + 3 ..< n + 3 + k], HBoard n (n + 1) (n + 2) (n + 3 + k)])))"

text \<open>
  Reads and writes through a board reference. \<open>getCell\<close> is \<open>b.cells[i]\<close>, \<open>setCell\<close> is
  \<open>b.cells[i] = v\<close>, and so on for the edges. \<open>getObject\<close> is \<open>b.objects[i]\<close> read
  field by field; \<open>setObject\<close> is \<open>b.objects[i] = {...}\<close>, which allocates the record
  and stores its reference; \<open>writeObject\<close> assigns to fields of the record that
  \<open>b.objects[i]\<close> already refers to. \<open>None\<close> is an index outside the array (or a store
  that holds no board there).
\<close>

definition getCell :: "store \<Rightarrow> ref \<Rightarrow> int \<Rightarrow> CellType option" where
  "getCell h b i =
     Option.bind (Option.bind (cellsRef h b) (cellsIn h)) (\<lambda>cs. js_get cs i)"

definition setCell :: "store \<Rightarrow> ref \<Rightarrow> int \<Rightarrow> CellType \<Rightarrow> store option" where
  "setCell h b i v =
     (case cellsRef h b of
        None \<Rightarrow> None
      | Some c \<Rightarrow>
          (case cellsIn h c of
             None \<Rightarrow> None
           | Some cs \<Rightarrow> if in_bounds cs i then Some (h[c := HCells (js_set cs i v)]) else None))"

definition getEdge :: "store \<Rightarrow> ref option \<Rightarrow> int \<Rightarrow> EdgeType option" where
  "getEdge h er i = Option.bind (Option.bind er (edgesIn h)) (\<lambda>es. js_get es i)"

definition setEdge :: "store \<Rightarrow> ref option \<Rightarrow> int \<Rightarrow> EdgeType \<Rightarrow> store option" where
  "setEdge h er i v =
     (case er of
        None \<Rightarrow> None
      | Some e \<Rightarrow>
          (case edgesIn h e of
             None \<Rightarrow> None
           | Some es \<Rightarrow> if in_bounds es i then Some (h[e := HEdges (js_set es i v)]) else None))"

definition getObject :: "store \<Rightarrow> ref \<Rightarrow> int \<Rightarrow> ObjectPlacement option" where
  "getObject h b i =
     Option.bind
       (Option.bind (Option.bind (objectsRef h b) (objectRefsIn h)) (\<lambda>rs. js_get rs i))
       (objectIn h)"

definition setObject :: "store \<Rightarrow> ref \<Rightarrow> int \<Rightarrow> ObjectPlacement \<Rightarrow> store option" where
  "setObject h b i v =
     (case objectsRef h b of
        None \<Rightarrow> None
      | Some os \<Rightarrow>
          (case objectRefsIn h os of
             None \<Rightarrow> None
           | Some rs \<Rightarrow>
               if in_bounds rs i
               then Some ((h @ [HObject v])[os := HObjects (js_set rs i (length h))])
               else None))"

definition writeObject :: "store \<Rightarrow> ref \<Rightarrow> int \<Rightarrow> ObjectPlacement \<Rightarrow> store option" where
  "writeObject h b i v =
     (case Option.bind (Option.bind (objectsRef h b) (objectRefsIn h)) (\<lambda>rs. js_get rs i) of
        None \<Rightarrow> None
      | Some r \<Rightarrow>
          (case objectIn h r of None \<Rightarrow> None | Some _ \<Rightarrow> Some (h[r := HObject v])))"

text \<open>
  The updater: the reference it returns (\<open>prev\<close> itself, or \<open>next\<close>) and the store it
  leaves. The status line and the selections are in \<open>boardUpdater\<close> above and are left
  out here.
\<close>

definition storeUpdater :: "ToolConfig \<Rightarrow> store \<Rightarrow> ref \<Rightarrow> Pick \<Rightarrow> (ref \<times> store) option" where
  "storeUpdater cfg h prev pick =
     (case copyBoard h prev of
        None \<Rightarrow> None
      | Some (next, h1) \<Rightarrow>
          (case pick of
             CellPick x y \<Rightarrow>
               (let i = idxCell x y in
                if mode cfg = Cells then
                  (case setCell h1 next i (cellBrush cfg) of
                     None \<Rightarrow> None
                   | Some h2 \<Rightarrow>
                       if cellBrush cfg = Floor
                          \<and> map_option type (getObject h2 next i) = Some Bridge
                       then map_option (Pair next) (setObject h2 next i emptyObject)
                       else Some (next, h2))
                else if mode cfg = Objects then
                  (if objectBrush cfg = Light then
                     (case getObject h1 next i of
                        None \<Rightarrow> None
                      | Some prevLight \<Rightarrow>
                          map_option (Pair next)
                            (setObject h1 next i
                               \<lparr>type = Light, rotation = rotation prevLight,
                                light = Some (lightBrush cfg)\<rparr>))
                   else if objectBrush cfg = Bridge
                           \<and> getCell h1 next i \<noteq> Some Water \<and> getCell h1 next i \<noteq> Some Pit
                   then Some (prev, h1)
                   else if objectBrush cfg = ONone
                   then map_option (Pair next) (setObject h1 next i emptyObject)
                   else
                     (case getObject h1 next i of
                        None \<Rightarrow> None
                      | Some ob \<Rightarrow>
                          if type ob = objectBrush cfg
                          then map_option (Pair next)
                                 (writeObject h1 next i
                                    (ob\<lparr>rotation := (rotation ob + 90) mod 360\<rparr>))
                          else map_option (Pair next)
                                 (writeObject h1 next i
                                    (ob\<lparr>type := objectBrush cfg, rotation := 0,
                                        light := None\<rparr>))))
                else Some (prev, h1))
           | EdgePick dir x y \<Rightarrow>
               if mode cfg \<noteq> Edges then Some (prev, h1)
               else
                 (case dir of
                    H \<Rightarrow>
                      (case getEdge h1 (hEdgesRef h1 next) (idxHEdge x y) of
                         None \<Rightarrow> None
                       | Some e \<Rightarrow>
                           map_option (Pair next)
                             (setEdge h1 (hEdgesRef h1 next) (idxHEdge x y)
                                (toggle (edgeBrush cfg) e)))
                  | V \<Rightarrow>
                      (case getEdge h1 (vEdgesRef h1 next) (idxVEdge x y) of
                         None \<Rightarrow> None
                       | Some e \<Rightarrow>
                           map_option (Pair next)
                             (setEdge h1 (vEdgesRef h1 next) (idxVEdge x y)
                                (toggle (edgeBrush cfg) e))))))"

text \<open>A store that holds one board, built cell by cell, for the examples.\<close>

definition storeOf :: "BoardState \<Rightarrow> store" where
  "storeOf b =
     HCells (cells b) # HEdges (hEdges b) # HEdges (vEdges b) # map HObject (objects b)
       @ [HObjects [3 ..< 3 + length (objects b)], HBoard 0 1 2 (3 + length (objects b))]"

text \<open>
  The shape of the store after the copy, for the proofs: the old store \<open>h\<close>, then the
  cells of \<open>next\<close> in the order \<open>copyBoard\<close> allocates them, then whatever was
  allocated since.
\<close>

definition layout ::
  "store \<Rightarrow> CellType list \<Rightarrow> EdgeType list \<Rightarrow> EdgeType list \<Rightarrow> ObjectPlacement list
     \<Rightarrow> ref list \<Rightarrow> store \<Rightarrow> store" where
  "layout h cs hs vs obs rs extra =
     h @ HCells cs # HEdges hs # HEdges vs # map HObject obs
       @ [HObjects rs,
          HBoard (length h) (length h + 1) (length h + 2) (length h + 3 + length obs)]
       @ extra"

section \<open>Array access lemmas\<close>

lemma js_get_in_bounds: "js_get xs i = Some v \<Longrightarrow> in_bounds xs i"
  by (auto simp: js_get_def split: if_splits)

lemma js_get_set_same: "in_bounds xs i \<Longrightarrow> js_get (js_set xs i v) i = Some v"
  by (simp add: js_get_def js_set_def in_bounds_def nat_less_iff)

lemma js_get_set_other: "i \<noteq> j \<Longrightarrow> 0 \<le> i \<Longrightarrow> js_get (js_set xs i v) j = js_get xs j"
  by (auto simp: js_get_def js_set_def in_bounds_def nat_eq_iff)

lemma length_js_set: "length (js_set xs i v) = length xs"
  by (simp add: js_set_def)

lemma list_all_js_set: "list_all P xs \<Longrightarrow> P v \<Longrightarrow> list_all P (js_set xs i v)"
  by (auto simp: js_set_def list_all_iff dest!: set_update_subset_insert[THEN subsetD])

lemma list_all_js_get: "list_all P xs \<Longrightarrow> js_get xs i = Some v \<Longrightarrow> P v"
  by (auto simp: js_get_def in_bounds_def list_all_iff split: if_splits)

section \<open>The board updater, branch by branch\<close>

lemma updater_board: "board (snd (boardUpdater cfg ed pick)) = board ed"
  by (cases pick)
    (auto simp: paintCell_def placeObject_def toggleEdge_def Let_def clearLightSelection_def
      split: option.splits EdgeDir.splits)

lemma toggleCustom_board: "board (toggleCustom name ed x y) = board ed"
  by (simp add: toggleCustom_def split: option.splits prod.splits)

lemma updater_lengths:
  assumes "boardUpdater cfg ed pick = (Next b, ed')"
  shows "length (cells b) = length (cells (board ed))
       \<and> length (hEdges b) = length (hEdges (board ed))
       \<and> length (vEdges b) = length (vEdges (board ed))
       \<and> length (objects b) = length (objects (board ed))"
proof (cases pick)
  case (CellPick x y)
  then show ?thesis using assms
    by (auto simp: paintCell_def placeObject_def Let_def length_js_set
        split: if_splits option.splits)
next
  case (EdgePick d x y)
  then show ?thesis using assms
    by (auto simp: toggleEdge_def Let_def length_js_set
        split: if_splits option.splits EdgeDir.splits)
qed

lemma wf_in_bounds:
  assumes "wf_board b"
  shows "in_grid x y \<Longrightarrow>
           in_bounds (cells b) (idxCell x y) \<and> in_bounds (objects b) (idxCell x y)"
    and "valid_pick (EdgePick H x y) \<Longrightarrow> in_bounds (hEdges b) (idxHEdge x y)"
    and "valid_pick (EdgePick V x y) \<Longrightarrow> in_bounds (vEdges b) (idxVEdge x y)"
  using assms
  by (auto simp: wf_board_def in_grid_def in_bounds_def idxCell_def idxHEdge_def idxVEdge_def
      GRID_W_def GRID_H_def)

lemma wf_board_lookup:
  assumes "wf_board b"
  shows "in_grid x y \<Longrightarrow> \<exists>c ob. cellAt b x y = Some c \<and> objectAt b x y = Some ob"
    and "valid_pick (EdgePick d x y) \<Longrightarrow> \<exists>e. edgeAt b d x y = Some e"
  using wf_in_bounds[OF assms, of x y]
  by (cases d; simp add: cellAt_def objectAt_def edgeAt_def js_get_def)+

lemma updater_total:
  assumes "wf_board (board ed)" and "valid_pick pick"
  shows "fst (boardUpdater cfg ed pick) \<noteq> OutOfGrid"
proof (cases pick)
  case (CellPick x y)
  then have "in_bounds (cells (board ed)) (idxCell x y)"
    "in_bounds (objects (board ed)) (idxCell x y)"
    using assms wf_in_bounds(1) by auto
  then show ?thesis using CellPick
    by (auto simp: paintCell_def placeObject_def Let_def js_get_def
        split: if_splits option.splits)
next
  case (EdgePick d x y)
  then show ?thesis using assms wf_in_bounds(2,3)[OF assms(1), of x y]
    by (cases d) (auto simp: toggleEdge_def Let_def js_get_def split: if_splits option.splits)
qed

lemma applyPick_cases:
  assumes "applyPick cfg ed pick = Some ed'"
  shows "board ed' = board ed
       \<or> (\<exists>e. boardUpdater cfg ed pick = (Next (board ed'), e))"
proof (cases "customPath cfg pick")
  case True
  then show ?thesis using assms
    by (auto simp: applyPick_def toggleCustom_board split: option.splits Pick.splits if_splits)
next
  case False
  obtain r e where u: "boardUpdater cfg ed pick = (r, e)"
    by (cases "boardUpdater cfg ed pick")
  have e: "board e = board ed" using updater_board[of cfg ed pick] u by simp
  show ?thesis using assms False u e by (cases r) (auto simp: applyPick_def)
qed

lemma applyPick_total:
  assumes "wf_board (board ed)" and "valid_pick pick"
  shows "\<exists>ed'. applyPick cfg ed pick = Some ed'"
proof (cases "customPath cfg pick")
  case True
  then show ?thesis
    by (auto simp: applyPick_def customPath_def split: option.splits Pick.splits)
next
  case False
  obtain r e where u: "boardUpdater cfg ed pick = (r, e)"
    by (cases "boardUpdater cfg ed pick")
  have "r \<noteq> OutOfGrid" using updater_total[OF assms, of cfg] u by simp
  then show ?thesis using False u by (cases r) (auto simp: applyPick_def)
qed

lemma applyPick_wf:
  assumes "wf_board (board ed)" and "applyPick cfg ed pick = Some ed'"
  shows "wf_board (board ed')"
  using applyPick_cases[OF assms(2)] assms(1)
  by (auto simp: wf_board_def dest!: updater_lengths)

section \<open>The light invariant\<close>

lemma light_ok_empty: "light_ok emptyObject"
  by (simp add: light_ok_def emptyObject_def)

lemma paintCell_light_inv:
  "light_inv (board ed) \<Longrightarrow> paintCell cfg ed x y = (Next b, ed') \<Longrightarrow> light_inv b"
  by (auto simp: paintCell_def Let_def light_inv_def light_ok_empty
      split: if_splits intro!: list_all_js_set)

lemma placeObject_light_inv:
  assumes "light_inv (board ed)" and "placeObject cfg ed x y = (Next b, ed')"
  shows "light_inv b"
proof -
  have ob: "light_ok ob" if "js_get (objects (board ed)) (idxCell x y) = Some ob" for ob
    using assms(1) that unfolding light_inv_def by (rule list_all_js_get)
  show ?thesis
    using assms ob
    by (auto simp: placeObject_def Let_def light_inv_def emptyObject_def light_ok_def
        split: if_splits option.splits intro!: list_all_js_set)
qed

lemma toggleEdge_light_inv:
  "light_inv (board ed) \<Longrightarrow> toggleEdge cfg ed d x y = (Next b, ed') \<Longrightarrow> light_inv b"
  by (auto simp: toggleEdge_def Let_def light_inv_def
      split: if_splits option.splits EdgeDir.splits)

lemma updater_light_inv:
  "light_inv (board ed) \<Longrightarrow> boardUpdater cfg ed pick = (Next b, ed') \<Longrightarrow> light_inv b"
  by (cases pick)
    (auto split: if_splits
      dest: paintCell_light_inv placeObject_light_inv toggleEdge_light_inv)

lemma applyPick_light_inv:
  assumes "light_inv (board ed)" and "applyPick cfg ed pick = Some ed'"
  shows "light_inv (board ed')"
  using applyPick_cases[OF assms(2)] assms(1) updater_light_inv[of ed cfg pick "board ed'"]
  by (auto simp: light_inv_def)

lemma wf_empty: "wf_board makeEmptyState"
  by (simp add: wf_board_def makeEmptyState_def GRID_W_def GRID_H_def)

lemma light_inv_empty: "light_inv makeEmptyState"
  by (simp add: light_inv_def makeEmptyState_def list_all_iff light_ok_empty)

section \<open>Rejected edits\<close>

lemma rejected_not_custom: "rejected cfg b pick \<Longrightarrow> \<not> customPath cfg pick"
  by (auto simp: rejected_def customPath_def split: Pick.splits)

lemma rejected_updater:
  "rejected cfg (board ed) pick \<Longrightarrow> fst (boardUpdater cfg ed pick) = Prev"
  by (cases pick) (auto simp: rejected_def cellAt_def placeObject_def toggleEdge_def Let_def)

section \<open>Bridges need water or a pit\<close>

text \<open>
  C3. In objects mode with the bridge brush, a cell pick over terrain that is neither
  water nor pit is turned down: the updater returns \<open>prev\<close>, the board stays as it
  was and the status line says that a bridge goes on water or pit only. Over water or
  pit, on a cell whose object is not a bridge, the edit goes through and the cell's
  object becomes a bridge with rotation 0 and no light. The witness is the scenario on
  the empty board: bridge at (1,1) refused, then accepted once (1,1) is painted water.
\<close>

theorem bridge_needs_water_or_pit:
  assumes "mode cfg = Objects" and "objectBrush cfg = Bridge"
  shows "(cellAt (board ed) x y \<noteq> Some Water \<and> cellAt (board ed) x y \<noteq> Some Pit \<longrightarrow>
            fst (boardUpdater cfg ed (CellPick x y)) = Prev
            \<and> (\<exists>ed'. applyPick cfg ed (CellPick x y) = Some ed' \<and> board ed' = board ed
                  \<and> status ed' = Some PonteSoloAcquaBaratro))
       \<and> ((cellAt (board ed) x y = Some Water \<or> cellAt (board ed) x y = Some Pit)
            \<and> objectAt (board ed) x y = Some ob \<and> type ob \<noteq> Bridge \<longrightarrow>
            (\<exists>ed'. applyPick cfg ed (CellPick x y) = Some ed'
                  \<and> objectAt (board ed') x y
                      = Some \<lparr>type = Bridge, rotation = 0, light = None\<rparr>))"
proof -
  have nc: "\<not> customPath cfg (CellPick x y)" using assms by (simp add: customPath_def)
  have 1: "fst (boardUpdater cfg ed (CellPick x y)) = Prev
            \<and> (\<exists>ed'. applyPick cfg ed (CellPick x y) = Some ed' \<and> board ed' = board ed
                  \<and> status ed' = Some PonteSoloAcquaBaratro)"
    if "cellAt (board ed) x y \<noteq> Some Water" "cellAt (board ed) x y \<noteq> Some Pit"
    using that assms nc by (simp add: applyPick_def placeObject_def cellAt_def Let_def)
  have 2: "\<exists>ed'. applyPick cfg ed (CellPick x y) = Some ed'
                  \<and> objectAt (board ed') x y
                      = Some \<lparr>type = Bridge, rotation = 0, light = None\<rparr>"
    if "cellAt (board ed) x y = Some Water \<or> cellAt (board ed) x y = Some Pit"
      "objectAt (board ed) x y = Some ob" "type ob \<noteq> Bridge"
  proof -
    have ib: "in_bounds (objects (board ed)) (idxCell x y)"
      using that(2) by (auto simp: objectAt_def dest: js_get_in_bounds)
    show ?thesis using that assms nc ib
      by (auto simp: applyPick_def placeObject_def cellAt_def objectAt_def Let_def
          js_get_set_same)
  qed
  show ?thesis using 1 2 by blast
qed

theorem bridge_needs_water_or_pit_witness:
  "mode (toolCfg Objects Floor Wall Bridge) = Objects
   \<and> objectBrush (toolCfg Objects Floor Wall Bridge) = Bridge
   \<and> cellAt makeEmptyState 1 1 = Some Floor
   \<and> objectAt makeEmptyState 1 1 = Some emptyObject
   \<and> (\<exists>ed'. applyPick (toolCfg Objects Floor Wall Bridge) (initEditor makeEmptyState)
          (CellPick 1 1) = Some ed'
        \<and> board ed' = makeEmptyState \<and> objectAt (board ed') 1 1 = Some emptyObject
        \<and> status ed' = Some PonteSoloAcquaBaratro)
   \<and> (\<exists>ed1 ed2.
          applyPick (toolCfg Cells Water Wall Bridge) (initEditor makeEmptyState)
            (CellPick 1 1) = Some ed1
        \<and> cellAt (board ed1) 1 1 = Some Water
        \<and> applyPick (toolCfg Objects Floor Wall Bridge) ed1 (CellPick 1 1) = Some ed2
        \<and> objectAt (board ed2) 1 1 = Some \<lparr>type = Bridge, rotation = 0, light = None\<rparr>)"
proof -
  let ?bridge = "toolCfg Objects Floor Wall Bridge"
  let ?ed0 = "initEditor makeEmptyState"
  have m: "mode ?bridge = Objects" "objectBrush ?bridge = Bridge"
    by (simp_all add: toolCfg_def)
  have c0: "cellAt (board ?ed0) 1 1 = Some Floor" "objectAt (board ?ed0) 1 1 = Some emptyObject"
    by (simp_all add: initEditor_def makeEmptyState_def cellAt_def objectAt_def js_get_def
        in_bounds_def idxCell_def GRID_W_def GRID_H_def)
  have b0: "board ?ed0 = makeEmptyState" by (simp add: initEditor_def)
  have refused: "\<exists>ed'. applyPick ?bridge ?ed0 (CellPick 1 1) = Some ed'
        \<and> board ed' = makeEmptyState \<and> objectAt (board ed') 1 1 = Some emptyObject
        \<and> status ed' = Some PonteSoloAcquaBaratro"
    using bridge_needs_water_or_pit[OF m, of ?ed0 1 1] c0 b0 by auto
  obtain ed1 where p: "applyPick (toolCfg Cells Water Wall Bridge) ?ed0 (CellPick 1 1) = Some ed1"
    and w: "cellAt (board ed1) 1 1 = Some Water"
    and o: "objectAt (board ed1) 1 1 = Some emptyObject"
    by (simp add: applyPick_def customPath_def toolCfg_def paintCell_def initEditor_def
        makeEmptyState_def cellAt_def objectAt_def js_get_def js_set_def in_bounds_def
        idxCell_def GRID_W_def GRID_H_def Let_def numeral_eq_Suc)
  have "type emptyObject \<noteq> Bridge" by (simp add: emptyObject_def)
  then obtain ed2 where "applyPick ?bridge ed1 (CellPick 1 1) = Some ed2"
    "objectAt (board ed2) 1 1 = Some \<lparr>type = Bridge, rotation = 0, light = None\<rparr>"
    using bridge_needs_water_or_pit[OF m, of ed1 1 1 emptyObject] w o by blast
  moreover have "cellAt makeEmptyState 1 1 = Some Floor"
    "objectAt makeEmptyState 1 1 = Some emptyObject"
    using c0 b0 by simp_all
  ultimately show ?thesis using m refused p w by blast
qed

section \<open>Painting terrain\<close>

text \<open>
  C4. In cells mode, a pick on a cell of the board sets that cell's terrain to the
  brush. Painting floor onto a cell that holds a bridge resets the cell's object to
  none with rotation 0; in every other case (any brush onto an object that is not a
  bridge, or pit or water under a bridge) the object stays as it was. No other cell,
  no other object and no edge changes.
\<close>

theorem paint_cell_coupling:
  assumes "mode cfg = Cells" and "cellAt (board ed) x y = Some c"
    and "objectAt (board ed) x y = Some ob"
  shows "\<exists>ed'. applyPick cfg ed (CellPick x y) = Some ed'
      \<and> cellAt (board ed') x y = Some (cellBrush cfg)
      \<and> objectAt (board ed') x y
          = Some (if cellBrush cfg = Floor \<and> type ob = Bridge then emptyObject else ob)
      \<and> (\<forall>j. j \<noteq> idxCell x y \<longrightarrow>
            js_get (cells (board ed')) j = js_get (cells (board ed)) j
            \<and> js_get (objects (board ed')) j = js_get (objects (board ed)) j)
      \<and> length (cells (board ed')) = length (cells (board ed))
      \<and> length (objects (board ed')) = length (objects (board ed))
      \<and> hEdges (board ed') = hEdges (board ed) \<and> vEdges (board ed') = vEdges (board ed)"
proof -
  have nc: "\<not> customPath cfg (CellPick x y)" using assms by (simp add: customPath_def)
  have ib: "in_bounds (cells (board ed)) (idxCell x y)"
    "in_bounds (objects (board ed)) (idxCell x y)"
    using assms by (auto simp: cellAt_def objectAt_def dest: js_get_in_bounds)
  then have nn: "0 \<le> idxCell x y" by (simp add: in_bounds_def)
  show ?thesis using assms nc ib nn
    by (auto simp: applyPick_def paintCell_def cellAt_def objectAt_def Let_def js_get_set_same
        js_get_set_other length_js_set)
qed

theorem paint_cell_coupling_witness:
  "mode (toolCfg Cells Floor Wall Lever) = Cells
   \<and> cellAt (board (initEditor bridgeBoard)) 1 1 = Some Water
   \<and> objectAt (board (initEditor bridgeBoard)) 1 1
       = Some \<lparr>type = Bridge, rotation = 0, light = None\<rparr>
   \<and> (\<exists>ed'. applyPick (toolCfg Cells Floor Wall Lever) (initEditor bridgeBoard) (CellPick 1 1)
          = Some ed'
        \<and> cellAt (board ed') 1 1 = Some Floor
        \<and> objectAt (board ed') 1 1 = Some emptyObject
        \<and> hEdges (board ed') = hEdges bridgeBoard \<and> vEdges (board ed') = vEdges bridgeBoard)"
proof -
  let ?cfg = "toolCfg Cells Floor Wall Lever"
  let ?ed = "initEditor bridgeBoard"
  have m: "mode ?cfg = Cells" "cellBrush ?cfg = Floor" by (simp_all add: toolCfg_def)
  have c: "cellAt (board ?ed) 1 1 = Some Water"
    by (simp add: initEditor_def bridgeBoard_def makeEmptyState_def cellAt_def js_get_def
        js_set_def in_bounds_def idxCell_def GRID_W_def GRID_H_def numeral_eq_Suc)
  have ob: "objectAt (board ?ed) 1 1 = Some \<lparr>type = Bridge, rotation = 0, light = None\<rparr>"
    by (simp add: initEditor_def bridgeBoard_def makeEmptyState_def objectAt_def js_get_def
        js_set_def in_bounds_def idxCell_def GRID_W_def GRID_H_def numeral_eq_Suc)
  have b: "board ?ed = bridgeBoard" by (simp add: initEditor_def)
  show ?thesis using paint_cell_coupling[OF m(1) c ob] m c ob b by auto
qed

section \<open>Toggling edges\<close>

lemma toggleEdge_once:
  assumes "mode cfg = Edges" and "edgeAt (board ed) d x y = Some e"
  shows "\<exists>b. toggleEdge cfg ed d x y = (Next b, ed)
           \<and> edgeAt b d x y = Some (toggle (edgeBrush cfg) e)"
  using assms
  by (cases d)
    (auto simp: toggleEdge_def edgeAt_def Let_def js_get_set_same dest: js_get_in_bounds)

lemma applyPick_edge_once:
  assumes "mode cfg = Edges" and "edgeAt (board ed) d x y = Some e"
  shows "\<exists>ed'. applyPick cfg ed (EdgePick d x y) = Some ed'
           \<and> edgeAt (board ed') d x y = Some (toggle (edgeBrush cfg) e)"
proof -
  obtain b where "toggleEdge cfg ed d x y = (Next b, ed)"
    "edgeAt b d x y = Some (toggle (edgeBrush cfg) e)"
    using toggleEdge_once[OF assms] by blast
  then show ?thesis by (simp add: applyPick_def customPath_def)
qed

text \<open>
  C7, as the code has it. In edges mode, one pick on an edge of the board sets the edge
  to the brush when it differs from the brush and to none when it equals the brush. A
  second pick on the same edge with the same brush therefore gives none when the edge
  differed from the brush at the start, and gives the brush back when the edge equalled
  the brush at the start.
\<close>

theorem edge_toggle_law:
  assumes "mode cfg = Edges" and "edgeAt (board ed) d x y = Some e"
  shows "\<exists>ed1 ed2.
           applyPick cfg ed (EdgePick d x y) = Some ed1
           \<and> edgeAt (board ed1) d x y = Some (if e = edgeBrush cfg then ENone else edgeBrush cfg)
           \<and> applyPick cfg ed1 (EdgePick d x y) = Some ed2
           \<and> edgeAt (board ed2) d x y = Some (if e = edgeBrush cfg then edgeBrush cfg else ENone)"
proof -
  obtain ed1 where 1: "applyPick cfg ed (EdgePick d x y) = Some ed1"
    "edgeAt (board ed1) d x y = Some (toggle (edgeBrush cfg) e)"
    using applyPick_edge_once[OF assms] by blast
  obtain ed2 where 2: "applyPick cfg ed1 (EdgePick d x y) = Some ed2"
    "edgeAt (board ed2) d x y = Some (toggle (edgeBrush cfg) (toggle (edgeBrush cfg) e))"
    using applyPick_edge_once[OF assms(1) 1(2)] by blast
  show ?thesis using 1 2 by (auto simp: toggle_def)
qed

theorem edge_toggle_law_witness:
  "mode (toolCfg Edges Floor Wall Lever) = Edges
   \<and> edgeAt (board (initEditor makeEmptyState)) V 2 1 = Some ENone
   \<and> (\<exists>ed1 ed2.
         applyPick (toolCfg Edges Floor Wall Lever) (initEditor makeEmptyState) (EdgePick V 2 1)
           = Some ed1
         \<and> edgeAt (board ed1) V 2 1 = Some Wall
         \<and> applyPick (toolCfg Edges Floor Wall Lever) ed1 (EdgePick V 2 1) = Some ed2
         \<and> edgeAt (board ed2) V 2 1 = Some ENone)"
proof -
  have m: "mode (toolCfg Edges Floor Wall Lever) = Edges"
    "edgeBrush (toolCfg Edges Floor Wall Lever) = Wall"
    by (simp_all add: toolCfg_def)
  have e: "edgeAt (board (initEditor makeEmptyState)) V 2 1 = Some ENone"
    by (simp add: initEditor_def makeEmptyState_def edgeAt_def js_get_def in_bounds_def
        idxVEdge_def GRID_W_def GRID_H_def)
  show ?thesis using edge_toggle_law[OF m(1) e] m e by auto
qed

text \<open>
  Two picks do not always end on none: on a board whose edge already equals the brush,
  here a wall on v-edge (2,1), two wall picks on it leave the wall there.
\<close>

theorem edge_toggle_twice_counterexample:
  "map_option board
     (session (initEditor wallBoard)
        [Edit (toolCfg Edges Floor Wall Lever) (EdgePick V 2 1),
         Edit (toolCfg Edges Floor Wall Lever) (EdgePick V 2 1)])
   = Some wallBoard
   \<and> edgeAt wallBoard V 2 1 = Some Wall
   \<and> edgeAt wallBoard V 2 1 \<noteq> Some ENone"
  by (simp add: initEditor_def wallBoard_def makeEmptyState_def toolCfg_def applyPick_def
      customPath_def toggleEdge_def edgeAt_def js_get_def js_set_def in_bounds_def idxVEdge_def
      GRID_W_def GRID_H_def toggle_def Let_def numeral_eq_Suc)

section \<open>The light invariant is kept\<close>

text \<open>
  C9. An object carries a light payload exactly when its type is light. The empty
  board satisfies this. From a board that satisfies it, whatever the tool settings and
  the pick, every editor state \<open>applyPick\<close> returns has a board that satisfies it;
  and on a board of the right sizes a pick inside the grid always returns one.
\<close>

theorem light_invariant_preserved:
  "light_inv makeEmptyState
   \<and> (light_inv (board ed) \<longrightarrow>
        (\<forall>ed'. applyPick cfg ed pick = Some ed' \<longrightarrow> light_inv (board ed'))
        \<and> (wf_board (board ed) \<and> valid_pick pick \<longrightarrow>
             (\<exists>ed'. applyPick cfg ed pick = Some ed' \<and> light_inv (board ed'))))"
  using light_inv_empty applyPick_light_inv[of ed cfg pick] applyPick_total[of ed pick cfg]
  by blast

theorem light_invariant_preserved_witness:
  "light_inv (board (initEditor makeEmptyState))
   \<and> wf_board (board (initEditor makeEmptyState)) \<and> valid_pick (CellPick 2 3)
   \<and> (\<exists>ed'. applyPick (toolCfg Objects Floor Wall Light) (initEditor makeEmptyState)
          (CellPick 2 3) = Some ed'
        \<and> light_inv (board ed')
        \<and> map_option type (objectAt (board ed') 2 3) = Some Light)"
proof -
  let ?cfg = "toolCfg Objects Floor Wall Light"
  let ?ed = "initEditor makeEmptyState"
  have b: "board ?ed = makeEmptyState" by (simp add: initEditor_def)
  have l: "light_inv (board ?ed)" using light_inv_empty b by simp
  have w: "wf_board (board ?ed)" using wf_empty b by simp
  have v: "valid_pick (CellPick 2 3)" by (simp add: in_grid_def GRID_W_def GRID_H_def)
  obtain ed' where a: "applyPick ?cfg ?ed (CellPick 2 3) = Some ed'"
    using applyPick_total[OF w v] by blast
  have i: "light_inv (board ed')"
    using light_invariant_preserved[of ?ed ?cfg "CellPick 2 3"] l a by blast
  have "map_option type (objectAt (board ed') 2 3) = Some Light"
    using a
    by (auto simp: applyPick_def customPath_def toolCfg_def placeObject_def initEditor_def
        makeEmptyState_def objectAt_def js_get_def js_set_def in_bounds_def idxCell_def
        GRID_W_def GRID_H_def Let_def numeral_eq_Suc)
  then show ?thesis using l w v a i by blast
qed

section \<open>Picking\<close>

lemma clamp_range: "a \<le> b \<Longrightarrow> a \<le> clamp n a b \<and> clamp n a b \<le> b"
  by (auto simp: clamp_def)

lemma clamp_id: "a \<le> n \<Longrightarrow> n \<le> b \<Longrightarrow> clamp n a b = n"
  by (auto simp: clamp_def)

lemma half_board: "halfW = 2" "halfH = 2"
  by code_simp+

lemma fl_three_tenths: "fl (3 / 10) = 5404319552844595 / 18014398509481984"
  by code_simp

lemma pickFromMouse_valid: "valid_pick (pickFromMouse m px pz)"
proof -
  have x: "0 \<le> clamp \<lfloor>fl (fl (px + halfW) / cellSize)\<rfloor> 0 (GRID_W - 1)"
    "clamp \<lfloor>fl (fl (px + halfW) / cellSize)\<rfloor> 0 (GRID_W - 1) \<le> GRID_W - 1"
    using clamp_range[of 0 "GRID_W - 1"] by (simp_all add: GRID_W_def)
  have y: "0 \<le> clamp \<lfloor>fl (fl (pz + halfH) / cellSize)\<rfloor> 0 (GRID_H - 1)"
    "clamp \<lfloor>fl (fl (pz + halfH) / cellSize)\<rfloor> 0 (GRID_H - 1) \<le> GRID_H - 1"
    using clamp_range[of 0 "GRID_H - 1"] by (simp_all add: GRID_H_def)
  show ?thesis using x y by (simp add: pickFromMouse_def Let_def in_grid_def)
qed

lemma getCellFromMouse_in_grid:
  "in_grid (fst (getCellFromMouse px pz)) (snd (getCellFromMouse px pz))"
  using clamp_range[of 0 "GRID_W - 1" "\<lfloor>fl (fl (px + halfW) / cellSize)\<rfloor>"]
    clamp_range[of 0 "GRID_H - 1" "\<lfloor>fl (fl (pz + halfH) / cellSize)\<rfloor>"]
  by (simp add: getCellFromMouse_def in_grid_def GRID_W_def GRID_H_def)

text \<open>
  Where rounding decides. A point whose \<open>x\<close> is the double \<open>0.18\<close>, in the middle row of
  its cell, is not snapped to the left border in edges mode: \<open>0.18 + 2\<close> rounds up, so
  the offset the code computes exceeds the threshold. A point \<open>1e-16\<close> left of the line
  between columns 1 and 2 is in column 2: \<open>-1e-16 + 2\<close> rounds to \<open>2\<close>.
\<close>

lemma rounding_decides:
  "pickFromMouse Edges (fl (18 / 100)) (- 3 / 2) = CellPick 2 0"
  "pickFromMouse Cells (fl (- 1 / 10 ^ 16)) 0 = CellPick 2 2"
  by code_simp+

text \<open>
  C6. Outside edges mode the pick is always the cell under the point and never an edge,
  however close the point is to a border: the cell is
  \<open>cx = clamp(floor((p.x + W/2) / cellSize), 0, W - 1)\<close> and
  \<open>cy = clamp(floor((p.z + H/2) / cellSize), 0, H - 1)\<close> with \<open>W/2 = H/2 = 2\<close>,
  \<open>cellSize = 1\<close>, \<open>W - 1 = H - 1 = 3\<close>, the clamp written out as a maximum of a minimum,
  and the sum and the quotient rounded as the machine rounds them. The witness takes the
  point at local (0.5, 0.5) of cell (1,2), a point of that cell 0.01 from its left
  border, and the point \<open>1e-16\<close> left of the line between columns 1 and 2.
\<close>

theorem cell_pick_outside_edges_mode:
  assumes "m \<noteq> Edges"
  shows "pickFromMouse m px pz
           = CellPick (max 0 (min 3 \<lfloor>fl (fl (px + 2) / 1)\<rfloor>))
               (max 0 (min 3 \<lfloor>fl (fl (pz + 2) / 1)\<rfloor>))
       \<and> (\<forall>d x y. pickFromMouse m px pz \<noteq> EdgePick d x y)"
  using assms
  by (simp add: pickFromMouse_def Let_def half_board cellSize_def clamp_def GRID_W_def
      GRID_H_def)

theorem cell_pick_outside_edges_mode_witness:
  "Objects \<noteq> Edges \<and> pickFromMouse Objects (- 1 / 2) (1 / 2) = CellPick 1 2
   \<and> Cells \<noteq> Edges \<and> pickFromMouse Cells (fl (- 99 / 100)) (1 / 2) = CellPick 1 2
   \<and> pickFromMouse Cells (fl (- 1 / 10 ^ 16)) 0 = CellPick 2 2"
proof -
  have m: "Objects \<noteq> Edges" "Cells \<noteq> Edges" by simp_all
  have f:
    "max 0 (min 3 \<lfloor>fl (fl (- 1 / 2 + 2) / 1)\<rfloor>) = (1 :: int)"
    "max 0 (min 3 \<lfloor>fl (fl (1 / 2 + 2) / 1)\<rfloor>) = (2 :: int)"
    "max 0 (min 3 \<lfloor>fl (fl (fl (- 99 / 100) + 2) / 1)\<rfloor>) = (1 :: int)"
    "max 0 (min 3 \<lfloor>fl (fl (fl (- 1 / 10 ^ 16) + 2) / 1)\<rfloor>) = (2 :: int)"
    "max 0 (min 3 \<lfloor>fl (fl (0 + 2) / 1)\<rfloor>) = (2 :: int)"
    by code_simp+
  show ?thesis
    using m cell_pick_outside_edges_mode[OF m(1), of "- 1 / 2" "1 / 2"]
      cell_pick_outside_edges_mode[OF m(2), of "fl (- 99 / 100)" "1 / 2"]
      cell_pick_outside_edges_mode[OF m(2), of "fl (- 1 / 10 ^ 16)" 0]
    by (simp only: f) simp
qed

text \<open>
  C5. In edges mode, with \<open>(cx, cy)\<close> the clamped cell of the point, \<open>dLeft\<close> and
  \<open>dTop\<close> the offsets of the point within that cell, \<open>dRight\<close> and \<open>dBottom\<close> their
  complements to the cell size and \<open>snap\<close> the threshold \<open>0.18 * cellSize\<close>, all as the
  machine computes them: when the smallest of the four distances is at most \<open>snap\<close> the
  pick is the edge on the nearest border, ties going to top, then bottom, then left,
  then right (top is h-edge \<open>(cx, cy)\<close>, bottom h-edge \<open>(cx, cy + 1)\<close>, left v-edge
  \<open>(cx, cy)\<close>, right v-edge \<open>(cx + 1, cy)\<close>); when all four exceed \<open>snap\<close> the pick is
  the cell \<open>(cx, cy)\<close>. The witness has one point for each of the five cases; the first
  is the point of cell (2,0) at mid-width, 0.05 from its top border, which gives the
  h-edge (2,0).
\<close>

theorem edge_snap_nearest_border:
  assumes "lx = fl (px + 2)" and "lz = fl (pz + 2)"
    and "cx = max 0 (min 3 \<lfloor>fl (lx / 1)\<rfloor>)" and "cy = max 0 (min 3 \<lfloor>fl (lz / 1)\<rfloor>)"
    and "dLeft = fl (lx - fl (of_int cx * 1))" and "dTop = fl (lz - fl (of_int cy * 1))"
    and "dRight = fl (1 - dLeft)" and "dBottom = fl (1 - dTop)"
    and "snap = fl (fl (18 / 100) * 1)"
  shows "(dTop \<le> snap \<and> dTop \<le> dBottom \<and> dTop \<le> dLeft \<and> dTop \<le> dRight \<longrightarrow>
            pickFromMouse Edges px pz = EdgePick H cx cy)
       \<and> (dBottom \<le> snap \<and> dBottom < dTop \<and> dBottom \<le> dLeft \<and> dBottom \<le> dRight \<longrightarrow>
            pickFromMouse Edges px pz = EdgePick H cx (cy + 1))
       \<and> (dLeft \<le> snap \<and> dLeft < dTop \<and> dLeft < dBottom \<and> dLeft \<le> dRight \<longrightarrow>
            pickFromMouse Edges px pz = EdgePick V cx cy)
       \<and> (dRight \<le> snap \<and> dRight < dTop \<and> dRight < dBottom \<and> dRight < dLeft \<longrightarrow>
            pickFromMouse Edges px pz = EdgePick V (cx + 1) cy)
       \<and> (snap < dTop \<and> snap < dBottom \<and> snap < dLeft \<and> snap < dRight \<longrightarrow>
            pickFromMouse Edges px pz = CellPick cx cy)"
proof -
  have g: "(4 :: int) - 1 = 3" by simp
  have p: "pickFromMouse Edges px pz =
      (if min (min (min dLeft dRight) dTop) dBottom \<le> snap then
         (if min (min (min dLeft dRight) dTop) dBottom = dTop then EdgePick H cx cy
          else if min (min (min dLeft dRight) dTop) dBottom = dBottom
          then EdgePick H cx (cy + 1)
          else if min (min (min dLeft dRight) dTop) dBottom = dLeft then EdgePick V cx cy
          else EdgePick V (cx + 1) cy)
       else CellPick cx cy)"
    unfolding pickFromMouse_def Let_def half_board cellSize_def clamp_def GRID_W_def
      GRID_H_def g
    unfolding assms(1,2)[symmetric]
    unfolding assms(3,4)[symmetric]
    unfolding assms(5,6)[symmetric]
    unfolding assms(7,8)[symmetric] assms(9)[symmetric]
    by simp
  show ?thesis unfolding p by (auto simp: min_def)
qed

theorem edge_snap_nearest_border_witness:
  "pickFromMouse Edges (1 / 2) (fl (- 39 / 20)) = EdgePick H 2 0
   \<and> pickFromMouse Edges (1 / 2) (fl (- 21 / 20)) = EdgePick H 2 1
   \<and> pickFromMouse Edges (fl (1 / 20)) (- 3 / 2) = EdgePick V 2 0
   \<and> pickFromMouse Edges (fl (19 / 20)) (- 3 / 2) = EdgePick V 3 0
   \<and> pickFromMouse Edges (fl (18 / 100)) (- 3 / 2) = CellPick 2 0"
proof -
  have top: "pickFromMouse Edges (1 / 2) (fl (- 39 / 20)) = EdgePick H 2 0"
  proof -
    have e:
      "(5 / 2 :: real) = fl (1 / 2 + 2)"
      "(225179981368525 / 4503599627370496 :: real) = fl (fl (- 39 / 20) + 2)"
      "(2 :: int) = max 0 (min 3 \<lfloor>fl (5 / 2 / 1)\<rfloor>)"
      "(0 :: int) = max 0 (min 3 \<lfloor>fl (225179981368525 / 4503599627370496 / 1)\<rfloor>)"
      "(1 / 2 :: real) = fl (5 / 2 - fl (of_int 2 * 1))"
      "(225179981368525 / 4503599627370496 :: real) = fl (225179981368525 / 4503599627370496 - fl (of_int 0 * 1))"
      "(1 / 2 :: real) = fl (1 - 1 / 2)"
      "(4278419646001971 / 4503599627370496 :: real) = fl (1 - 225179981368525 / 4503599627370496)"
      "(3242591731706757 / 18014398509481984 :: real) = fl (fl (18 / 100) * 1)"
      by code_simp+
    show ?thesis using edge_snap_nearest_border[OF e] by simp
  qed
  have bottom: "pickFromMouse Edges (1 / 2) (fl (- 21 / 20)) = EdgePick H 2 1"
  proof -
    have e:
      "(5 / 2 :: real) = fl (1 / 2 + 2)"
      "(4278419646001971 / 4503599627370496 :: real) = fl (fl (- 21 / 20) + 2)"
      "(2 :: int) = max 0 (min 3 \<lfloor>fl (5 / 2 / 1)\<rfloor>)"
      "(0 :: int) = max 0 (min 3 \<lfloor>fl (4278419646001971 / 4503599627370496 / 1)\<rfloor>)"
      "(1 / 2 :: real) = fl (5 / 2 - fl (of_int 2 * 1))"
      "(4278419646001971 / 4503599627370496 :: real) = fl (4278419646001971 / 4503599627370496 - fl (of_int 0 * 1))"
      "(1 / 2 :: real) = fl (1 - 1 / 2)"
      "(225179981368525 / 4503599627370496 :: real) = fl (1 - 4278419646001971 / 4503599627370496)"
      "(3242591731706757 / 18014398509481984 :: real) = fl (fl (18 / 100) * 1)"
      by code_simp+
    show ?thesis using edge_snap_nearest_border[OF e] by simp
  qed
  have left: "pickFromMouse Edges (fl (1 / 20)) (- 3 / 2) = EdgePick V 2 0"
  proof -
    have e:
      "(2308094809027379 / 1125899906842624 :: real) = fl (fl (1 / 20) + 2)"
      "(1 / 2 :: real) = fl (- 3 / 2 + 2)"
      "(2 :: int) = max 0 (min 3 \<lfloor>fl (2308094809027379 / 1125899906842624 / 1)\<rfloor>)"
      "(0 :: int) = max 0 (min 3 \<lfloor>fl (1 / 2 / 1)\<rfloor>)"
      "(56294995342131 / 1125899906842624 :: real) = fl (2308094809027379 / 1125899906842624 - fl (of_int 2 * 1))"
      "(1 / 2 :: real) = fl (1 / 2 - fl (of_int 0 * 1))"
      "(1069604911500493 / 1125899906842624 :: real) = fl (1 - 56294995342131 / 1125899906842624)"
      "(1 / 2 :: real) = fl (1 - 1 / 2)"
      "(3242591731706757 / 18014398509481984 :: real) = fl (fl (18 / 100) * 1)"
      by code_simp+
    show ?thesis using edge_snap_nearest_border[OF e] by simp
  qed
  have right: "pickFromMouse Edges (fl (19 / 20)) (- 3 / 2) = EdgePick V 3 0"
  proof -
    have e:
      "(3321404725185741 / 1125899906842624 :: real) = fl (fl (19 / 20) + 2)"
      "(1 / 2 :: real) = fl (- 3 / 2 + 2)"
      "(2 :: int) = max 0 (min 3 \<lfloor>fl (3321404725185741 / 1125899906842624 / 1)\<rfloor>)"
      "(0 :: int) = max 0 (min 3 \<lfloor>fl (1 / 2 / 1)\<rfloor>)"
      "(1069604911500493 / 1125899906842624 :: real) = fl (3321404725185741 / 1125899906842624 - fl (of_int 2 * 1))"
      "(1 / 2 :: real) = fl (1 / 2 - fl (of_int 0 * 1))"
      "(56294995342131 / 1125899906842624 :: real) = fl (1 - 1069604911500493 / 1125899906842624)"
      "(1 / 2 :: real) = fl (1 - 1 / 2)"
      "(3242591731706757 / 18014398509481984 :: real) = fl (fl (18 / 100) * 1)"
      by code_simp+
    show ?thesis using edge_snap_nearest_border[OF e] by simp
  qed
  have inner: "pickFromMouse Edges (fl (18 / 100)) (- 3 / 2) = CellPick 2 0"
  proof -
    have e:
      "(4908923593833841 / 2251799813685248 :: real) = fl (fl (18 / 100) + 2)"
      "(1 / 2 :: real) = fl (- 3 / 2 + 2)"
      "(2 :: int) = max 0 (min 3 \<lfloor>fl (4908923593833841 / 2251799813685248 / 1)\<rfloor>)"
      "(0 :: int) = max 0 (min 3 \<lfloor>fl (1 / 2 / 1)\<rfloor>)"
      "(405323966463345 / 2251799813685248 :: real) = fl (4908923593833841 / 2251799813685248 - fl (of_int 2 * 1))"
      "(1 / 2 :: real) = fl (1 / 2 - fl (of_int 0 * 1))"
      "(1846475847221903 / 2251799813685248 :: real) = fl (1 - 405323966463345 / 2251799813685248)"
      "(1 / 2 :: real) = fl (1 - 1 / 2)"
      "(3242591731706757 / 18014398509481984 :: real) = fl (fl (18 / 100) * 1)"
      by code_simp+
    show ?thesis using edge_snap_nearest_border[OF e] by simp
  qed
  show ?thesis using top bottom left right inner by simp
qed

section \<open>Loading a document\<close>

lemma truthy_board_object:
  "truthy (getProp data k) \<Longrightarrow> truthy data \<and> typeofObject data"
  by (cases data) auto

lemma arrayOr_kept: "int (length xs) = n \<Longrightarrow> arrayOr (JArr xs) n dflt = xs"
  by simp

lemma arrayOr_dflt: "\<not> (\<exists>xs. v = JArr xs \<and> int (length xs) = n) \<Longrightarrow> arrayOr v n dflt = dflt"
  by (cases v) auto

lemma rawBoard_empty:
  "l_cells (rawBoard makeEmptyState) = replicate 16 (JStr ''floor'')"
  "l_hEdges (rawBoard makeEmptyState) = replicate 20 (JStr ''none'')"
  "l_vEdges (rawBoard makeEmptyState) = replicate 20 (JStr ''none'')"
  "l_objects (rawBoard makeEmptyState)
     = replicate 16 (JObj [(''type'', JStr ''none''), (''rotation'', JNum 0)])"
  by (simp_all add: rawBoard_def makeEmptyState_def GRID_W_def GRID_H_def object_js_def
      emptyObject_def)

lemma importJson_guard_passed:
  assumes "truthy (getProp data ''board'')"
    and "truthy (getProp (getProp data ''board'') ''cells'')"
    and "truthy (getProp (getProp data ''board'') ''hEdges'')"
    and "truthy (getProp (getProp data ''board'') ''vEdges'')"
    and "truthy (getProp (getProp data ''board'') ''objects'')"
  shows "\<exists>ld. importJson prev n data = Inr ld
      \<and> l_cells (ld_board ld)
          = arrayOr (getProp (getProp data ''board'') ''cells'') 16
              (l_cells (rawBoard makeEmptyState))
      \<and> l_hEdges (ld_board ld)
          = arrayOr (getProp (getProp data ''board'') ''hEdges'') 20
              (l_hEdges (rawBoard makeEmptyState))
      \<and> l_vEdges (ld_board ld)
          = arrayOr (getProp (getProp data ''board'') ''vEdges'') 20
              (l_vEdges (rawBoard makeEmptyState))
      \<and> l_objects (ld_board ld)
          = arrayOr (getProp (getProp data ''board'') ''objects'') 16
              (l_objects (rawBoard makeEmptyState))"
proof -
  have d: "truthy data" "typeofObject data"
    using truthy_board_object[OF assms(1)] by simp_all
  show ?thesis
    using assms d
    by (cases "getProp data ''customObjects''")
      (simp_all add: importJson_def Let_def GRID_W_def GRID_H_def split: prod.splits)
qed

text \<open>
  C1, as the code has it. When the document has a truthy \<open>board\<close> and each of
  \<open>cells\<close>, \<open>hEdges\<close>, \<open>vEdges\<close>, \<open>objects\<close> is present with a truthy value, the
  load succeeds field by field: a field that is an array of the right length (16, 20,
  20, 16) is kept as it is, and any other value (not an array, or an array of another
  length) is replaced by the matching array of \<open>makeEmptyState()\<close>, which for \<open>cells\<close>
  is sixteen times floor. When one of the four fields is absent, \<open>null\<close>, \<open>false\<close>,
  \<open>0\<close> or the empty string, the load as a whole fails with "Board mancante".
\<close>

theorem import_field_fallback:
  assumes "truthy (getProp data ''board'')"
  shows "(truthy (getProp (getProp data ''board'') ''cells'')
          \<and> truthy (getProp (getProp data ''board'') ''hEdges'')
          \<and> truthy (getProp (getProp data ''board'') ''vEdges'')
          \<and> truthy (getProp (getProp data ''board'') ''objects'') \<longrightarrow>
          (\<exists>ld. importJson prev n data = Inr ld
             \<and> (\<forall>xs. getProp (getProp data ''board'') ''cells'' = JArr xs \<and> length xs = 16
                    \<longrightarrow> l_cells (ld_board ld) = xs)
             \<and> (\<not> (\<exists>xs. getProp (getProp data ''board'') ''cells'' = JArr xs \<and> length xs = 16)
                    \<longrightarrow> l_cells (ld_board ld) = replicate 16 (JStr ''floor'')
                        \<and> l_cells (ld_board ld) = l_cells (rawBoard makeEmptyState))
             \<and> (\<forall>xs. getProp (getProp data ''board'') ''hEdges'' = JArr xs \<and> length xs = 20
                    \<longrightarrow> l_hEdges (ld_board ld) = xs)
             \<and> (\<not> (\<exists>xs. getProp (getProp data ''board'') ''hEdges'' = JArr xs \<and> length xs = 20)
                    \<longrightarrow> l_hEdges (ld_board ld) = l_hEdges (rawBoard makeEmptyState))
             \<and> (\<forall>xs. getProp (getProp data ''board'') ''vEdges'' = JArr xs \<and> length xs = 20
                    \<longrightarrow> l_vEdges (ld_board ld) = xs)
             \<and> (\<not> (\<exists>xs. getProp (getProp data ''board'') ''vEdges'' = JArr xs \<and> length xs = 20)
                    \<longrightarrow> l_vEdges (ld_board ld) = l_vEdges (rawBoard makeEmptyState))
             \<and> (\<forall>xs. getProp (getProp data ''board'') ''objects'' = JArr xs \<and> length xs = 16
                    \<longrightarrow> l_objects (ld_board ld) = xs)
             \<and> (\<not> (\<exists>xs. getProp (getProp data ''board'') ''objects'' = JArr xs \<and> length xs = 16)
                    \<longrightarrow> l_objects (ld_board ld) = l_objects (rawBoard makeEmptyState))))
       \<and> (\<not> truthy (getProp (getProp data ''board'') ''cells'')
          \<or> \<not> truthy (getProp (getProp data ''board'') ''hEdges'')
          \<or> \<not> truthy (getProp (getProp data ''board'') ''vEdges'')
          \<or> \<not> truthy (getProp (getProp data ''board'') ''objects'') \<longrightarrow>
          importJson prev n data = Inl BoardMancante)"
proof -
  have d: "truthy data" "typeofObject data"
    using truthy_board_object[OF assms] by simp_all
  have bad: "importJson prev n data = Inl BoardMancante"
    if "\<not> truthy (getProp (getProp data ''board'') ''cells'')
          \<or> \<not> truthy (getProp (getProp data ''board'') ''hEdges'')
          \<or> \<not> truthy (getProp (getProp data ''board'') ''vEdges'')
          \<or> \<not> truthy (getProp (getProp data ''board'') ''objects'')"
    using that d assms by (auto simp: importJson_def)
  have good: "\<exists>ld. importJson prev n data = Inr ld
             \<and> (\<forall>xs. getProp (getProp data ''board'') ''cells'' = JArr xs \<and> length xs = 16
                    \<longrightarrow> l_cells (ld_board ld) = xs)
             \<and> (\<not> (\<exists>xs. getProp (getProp data ''board'') ''cells'' = JArr xs \<and> length xs = 16)
                    \<longrightarrow> l_cells (ld_board ld) = replicate 16 (JStr ''floor'')
                        \<and> l_cells (ld_board ld) = l_cells (rawBoard makeEmptyState))
             \<and> (\<forall>xs. getProp (getProp data ''board'') ''hEdges'' = JArr xs \<and> length xs = 20
                    \<longrightarrow> l_hEdges (ld_board ld) = xs)
             \<and> (\<not> (\<exists>xs. getProp (getProp data ''board'') ''hEdges'' = JArr xs \<and> length xs = 20)
                    \<longrightarrow> l_hEdges (ld_board ld) = l_hEdges (rawBoard makeEmptyState))
             \<and> (\<forall>xs. getProp (getProp data ''board'') ''vEdges'' = JArr xs \<and> length xs = 20
                    \<longrightarrow> l_vEdges (ld_board ld) = xs)
             \<and> (\<not> (\<exists>xs. getProp (getProp data ''board'') ''vEdges'' = JArr xs \<and> length xs = 20)
                    \<longrightarrow> l_vEdges (ld_board ld) = l_vEdges (rawBoard makeEmptyState))
             \<and> (\<forall>xs. getProp (getProp data ''board'') ''objects'' = JArr xs \<and> length xs = 16
                    \<longrightarrow> l_objects (ld_board ld) = xs)
             \<and> (\<not> (\<exists>xs. getProp (getProp data ''board'') ''objects'' = JArr xs \<and> length xs = 16)
                    \<longrightarrow> l_objects (ld_board ld) = l_objects (rawBoard makeEmptyState))"
    if t: "truthy (getProp (getProp data ''board'') ''cells'')"
      "truthy (getProp (getProp data ''board'') ''hEdges'')"
      "truthy (getProp (getProp data ''board'') ''vEdges'')"
      "truthy (getProp (getProp data ''board'') ''objects'')"
  proof -
    obtain ld where ld: "importJson prev n data = Inr ld"
      and c: "l_cells (ld_board ld)
          = arrayOr (getProp (getProp data ''board'') ''cells'') 16
              (l_cells (rawBoard makeEmptyState))"
      and h: "l_hEdges (ld_board ld)
          = arrayOr (getProp (getProp data ''board'') ''hEdges'') 20
              (l_hEdges (rawBoard makeEmptyState))"
      and v: "l_vEdges (ld_board ld)
          = arrayOr (getProp (getProp data ''board'') ''vEdges'') 20
              (l_vEdges (rawBoard makeEmptyState))"
      and ob: "l_objects (ld_board ld)
          = arrayOr (getProp (getProp data ''board'') ''objects'') 16
              (l_objects (rawBoard makeEmptyState))"
      using importJson_guard_passed[OF assms t, of prev n] by blast
    have c1: "\<forall>xs. getProp (getProp data ''board'') ''cells'' = JArr xs \<and> length xs = 16
                    \<longrightarrow> l_cells (ld_board ld) = xs"
      using c by auto
    have c2: "\<not> (\<exists>xs. getProp (getProp data ''board'') ''cells'' = JArr xs \<and> length xs = 16)
                    \<longrightarrow> l_cells (ld_board ld) = replicate 16 (JStr ''floor'')
                        \<and> l_cells (ld_board ld) = l_cells (rawBoard makeEmptyState)"
      using c arrayOr_dflt[of "getProp (getProp data ''board'') ''cells''" 16]
      by (auto simp: rawBoard_empty)
    have h1: "\<forall>xs. getProp (getProp data ''board'') ''hEdges'' = JArr xs \<and> length xs = 20
                    \<longrightarrow> l_hEdges (ld_board ld) = xs"
      using h by auto
    have h2: "\<not> (\<exists>xs. getProp (getProp data ''board'') ''hEdges'' = JArr xs \<and> length xs = 20)
                    \<longrightarrow> l_hEdges (ld_board ld) = l_hEdges (rawBoard makeEmptyState)"
      using h arrayOr_dflt[of "getProp (getProp data ''board'') ''hEdges''" 20] by auto
    have v1: "\<forall>xs. getProp (getProp data ''board'') ''vEdges'' = JArr xs \<and> length xs = 20
                    \<longrightarrow> l_vEdges (ld_board ld) = xs"
      using v by auto
    have v2: "\<not> (\<exists>xs. getProp (getProp data ''board'') ''vEdges'' = JArr xs \<and> length xs = 20)
                    \<longrightarrow> l_vEdges (ld_board ld) = l_vEdges (rawBoard makeEmptyState)"
      using v arrayOr_dflt[of "getProp (getProp data ''board'') ''vEdges''" 20] by auto
    have o1: "\<forall>xs. getProp (getProp data ''board'') ''objects'' = JArr xs \<and> length xs = 16
                    \<longrightarrow> l_objects (ld_board ld) = xs"
      using ob by auto
    have o2: "\<not> (\<exists>xs. getProp (getProp data ''board'') ''objects'' = JArr xs \<and> length xs = 16)
                    \<longrightarrow> l_objects (ld_board ld) = l_objects (rawBoard makeEmptyState)"
      using ob arrayOr_dflt[of "getProp (getProp data ''board'') ''objects''" 16] by auto
    show ?thesis using ld c1 c2 h1 h2 v1 v2 o1 o2 by blast
  qed
  show ?thesis using good bad by blast
qed

theorem import_field_fallback_witness:
  "truthy (getProp shortCellsDoc ''board'')
   \<and> getProp (getProp shortCellsDoc ''board'') ''cells'' = JArr (replicate 10 (JStr ''water''))
   \<and> (\<exists>ld. importJson [] 1 shortCellsDoc = Inr ld
        \<and> l_cells (ld_board ld) = replicate 16 (JStr ''floor'')
        \<and> l_hEdges (ld_board ld) = JStr ''wall'' # replicate 19 (JStr ''none'')
        \<and> l_vEdges (ld_board ld) = JStr ''door'' # replicate 19 (JStr ''none'')
        \<and> l_objects (ld_board ld) = leverJs # replicate 15 (object_js emptyObject))"
proof -
  have b: "truthy (getProp shortCellsDoc ''board'')"
    by (simp add: shortCellsDoc_def boardDoc_def)
  have f: "getProp (getProp shortCellsDoc ''board'') ''cells'' = JArr (replicate 10 (JStr ''water''))"
    "getProp (getProp shortCellsDoc ''board'') ''hEdges''
       = JArr (JStr ''wall'' # replicate 19 (JStr ''none''))"
    "getProp (getProp shortCellsDoc ''board'') ''vEdges''
       = JArr (JStr ''door'' # replicate 19 (JStr ''none''))"
    "getProp (getProp shortCellsDoc ''board'') ''objects''
       = JArr (leverJs # replicate 15 (object_js emptyObject))"
    by (simp_all add: shortCellsDoc_def boardDoc_def)
  show ?thesis
    using import_field_fallback[OF b, of "[]" 1] b f by auto
qed

text \<open>
  The fallback does not reach an absent field: a document with a board that has valid
  \<open>hEdges\<close>, \<open>vEdges\<close> and \<open>objects\<close> but no \<open>cells\<close> is not loaded at all.
\<close>

theorem import_absent_field_counterexample:
  "truthy (getProp noCellsDoc ''board'')
   \<and> getProp (getProp noCellsDoc ''board'') ''cells'' = JUndefined
   \<and> getProp (getProp noCellsDoc ''board'') ''hEdges'' = JArr (l_hEdges (rawBoard makeEmptyState))
   \<and> getProp (getProp noCellsDoc ''board'') ''vEdges'' = JArr (l_vEdges (rawBoard makeEmptyState))
   \<and> getProp (getProp noCellsDoc ''board'') ''objects''
       = JArr (l_objects (rawBoard makeEmptyState))
   \<and> importJson [] 1 noCellsDoc = Inl BoardMancante"
  by (simp add: noCellsDoc_def importJson_def rawBoard_empty)

section \<open>What a load does not check\<close>

lemma those_replicate: "those (replicate k (Some y)) = Some (replicate k y)"
  by (induction k) simp_all

lemma importJson_boardDoc:
  assumes "length cs = 16" and "length hs = 20" and "length vs = 20" and "length os = 16"
  shows "importJson prev n (boardDoc cs hs vs os)
       = Inr \<lparr>ld_board = \<lparr>l_cells = cs, l_hEdges = hs, l_vEdges = vs, l_objects = os\<rparr>,
              ld_customObjects = prev, ld_nextCustomId = n\<rparr>"
  using assms by (simp add: importJson_def boardDoc_def Let_def GRID_W_def GRID_H_def)

lemma object_of_js_empty: "object_of_js (object_js emptyObject) = Some emptyObject"
  by (simp add: object_of_js_def object_js_def emptyObject_def)

lemma object_of_js_litLever:
  "object_of_js litLeverJs
     = Some \<lparr>type = Lever, rotation = 0,
             light = Some \<lparr>color = ''#ffffff'', intensity = 1, distance = 1, decay = 2\<rparr>\<rparr>"
  by (simp add: object_of_js_def litLeverJs_def light_of_js_def)

lemma object_of_js_darkLight:
  "object_of_js darkLightJs = Some \<lparr>type = Light, rotation = 0, light = None\<rparr>"
  by (simp add: object_of_js_def darkLightJs_def)

text \<open>
  C10. A load looks only at whether each of the four fields is an array of the right
  length: any four arrays of lengths 16, 20, 20 and 16 are installed entry for entry,
  with no error. So there is an accepted document whose board breaks the light
  invariant (a lever that carries a light payload and a light with none), and an
  accepted document whose board holds values outside the declared types (a cell
  "lava", an edge 7, a rotation 45) and so is no \<open>BoardState\<close> at all.
\<close>

theorem import_checks_length_only:
  "(length cs = 16 \<and> length hs = 20 \<and> length vs = 20 \<and> length os = 16 \<longrightarrow>
      importJson prev n (boardDoc cs hs vs os)
        = Inr \<lparr>ld_board = \<lparr>l_cells = cs, l_hEdges = hs, l_vEdges = vs, l_objects = os\<rparr>,
               ld_customObjects = prev, ld_nextCustomId = n\<rparr>)
   \<and> (\<exists>ld b. importJson prev n litLeverDoc = Inr ld
         \<and> typedBoard (ld_board ld) = Some b \<and> wf_board b \<and> \<not> light_inv b
         \<and> map light_ok (take 2 (objects b)) = [False, False])
   \<and> (\<exists>ld. importJson prev n lavaDoc = Inr ld
         \<and> typedBoard (ld_board ld) = None
         \<and> cell_of_js (hd (l_cells (ld_board ld))) = None
         \<and> edge_of_js (hd (l_vEdges (ld_board ld))) = None
         \<and> rotation_of_js (getProp (hd (l_objects (ld_board ld))) ''rotation'') = None)"
proof -
  have lit: "importJson prev n litLeverDoc
       = Inr \<lparr>ld_board = \<lparr>l_cells = replicate 16 (JStr ''floor''),
                l_hEdges = replicate 20 (JStr ''none''), l_vEdges = replicate 20 (JStr ''none''),
                l_objects = litLeverJs # darkLightJs # replicate 14 (object_js emptyObject)\<rparr>,
              ld_customObjects = prev, ld_nextCustomId = n\<rparr>"
    unfolding litLeverDoc_def by (rule importJson_boardDoc) simp_all
  have typed: "typedBoard \<lparr>l_cells = replicate 16 (JStr ''floor''),
                l_hEdges = replicate 20 (JStr ''none''), l_vEdges = replicate 20 (JStr ''none''),
                l_objects = litLeverJs # darkLightJs # replicate 14 (object_js emptyObject)\<rparr>
      = Some \<lparr>cells = replicate 16 Floor, hEdges = replicate 20 ENone,
               vEdges = replicate 20 ENone,
               objects =
                 \<lparr>type = Lever, rotation = 0,
                  light = Some \<lparr>color = ''#ffffff'', intensity = 1, distance = 1, decay = 2\<rparr>\<rparr>
                 # \<lparr>type = Light, rotation = 0, light = None\<rparr>
                 # replicate 14 emptyObject\<rparr>"
    by (simp add: typedBoard_def those_replicate object_of_js_empty object_of_js_litLever
        object_of_js_darkLight)
  have second: "\<exists>ld b. importJson prev n litLeverDoc = Inr ld
         \<and> typedBoard (ld_board ld) = Some b \<and> wf_board b \<and> \<not> light_inv b
         \<and> map light_ok (take 2 (objects b)) = [False, False]"
    unfolding lit using typed
    by (simp add: wf_board_def light_inv_def light_ok_def GRID_W_def GRID_H_def)
  have lava: "importJson prev n lavaDoc
       = Inr \<lparr>ld_board = \<lparr>l_cells = JStr ''lava'' # replicate 15 (JStr ''floor''),
                l_hEdges = replicate 20 (JStr ''none''), l_vEdges = replicate 20 (JNum 7),
                l_objects = replicate 16 (JObj [(''type'', JStr ''torch''), (''rotation'', JNum 45)])\<rparr>,
              ld_customObjects = prev, ld_nextCustomId = n\<rparr>"
    unfolding lavaDoc_def by (rule importJson_boardDoc) simp_all
  have third: "\<exists>ld. importJson prev n lavaDoc = Inr ld
         \<and> typedBoard (ld_board ld) = None
         \<and> cell_of_js (hd (l_cells (ld_board ld))) = None
         \<and> edge_of_js (hd (l_vEdges (ld_board ld))) = None
         \<and> rotation_of_js (getProp (hd (l_objects (ld_board ld))) ''rotation'') = None"
    unfolding lava by (simp add: typedBoard_def numeral_eq_Suc)
  show ?thesis using importJson_boardDoc[of cs hs vs os prev n] second third by blast
qed

theorem import_checks_length_only_witness:
  "length (JStr ''lava'' # replicate 15 (JStr ''floor'')) = 16
   \<and> length (replicate 20 (JStr ''none'')) = 20
   \<and> length (replicate 20 (JNum 7)) = 20
   \<and> length (replicate 16 (JBool True)) = 16
   \<and> importJson [] 1
       (boardDoc (JStr ''lava'' # replicate 15 (JStr ''floor'')) (replicate 20 (JStr ''none''))
          (replicate 20 (JNum 7)) (replicate 16 (JBool True)))
     = Inr \<lparr>ld_board =
              \<lparr>l_cells = JStr ''lava'' # replicate 15 (JStr ''floor''),
               l_hEdges = replicate 20 (JStr ''none''), l_vEdges = replicate 20 (JNum 7),
               l_objects = replicate 16 (JBool True)\<rparr>,
            ld_customObjects = [], ld_nextCustomId = 1\<rparr>"
  using import_checks_length_only[of "JStr ''lava'' # replicate 15 (JStr ''floor'')"
      "replicate 20 (JStr ''none'')" "replicate 20 (JNum 7)" "replicate 16 (JBool True)" "[]" 1]
  by simp

section \<open>What a session keeps\<close>

lemma rotation_ok_empty: "rotation_ok emptyObject"
  by (simp add: rotation_ok_def emptyObject_def)

lemma rotation_ok_turn: "rotation_ok ob \<Longrightarrow> rotation_ok (ob\<lparr>rotation := (rotation ob + 90) mod 360\<rparr>)"
  by (auto simp: rotation_ok_def)

lemma paintCell_rotation_inv:
  "rotation_inv (board ed) \<Longrightarrow> paintCell cfg ed x y = (Next b, ed') \<Longrightarrow> rotation_inv b"
  by (auto simp: paintCell_def Let_def rotation_inv_def rotation_ok_empty
      split: if_splits intro!: list_all_js_set)

lemma placeObject_rotation_inv:
  assumes "rotation_inv (board ed)" and "placeObject cfg ed x y = (Next b, ed')"
  shows "rotation_inv b"
proof -
  have ob: "rotation_ok ob" if "js_get (objects (board ed)) (idxCell x y) = Some ob" for ob
    using assms(1) that unfolding rotation_inv_def by (rule list_all_js_get)
  have turn: "rotation_ok (ob\<lparr>rotation := (rotation ob + 90) mod 360\<rparr>)"
    if "js_get (objects (board ed)) (idxCell x y) = Some ob" for ob
    using ob[OF that] by (rule rotation_ok_turn)
  have fresh: "rotation_ok (ob\<lparr>type := t, rotation := 0, light := None\<rparr>)" for ob t
    by (simp add: rotation_ok_def)
  have lit: "rotation_ok \<lparr>type = Light, rotation = rotation ob, light = Some l\<rparr>"
    if "js_get (objects (board ed)) (idxCell x y) = Some ob" for ob l
    using ob[OF that] by (simp add: rotation_ok_def)
  show ?thesis
    using assms turn fresh lit
    by (auto simp: placeObject_def Let_def rotation_inv_def rotation_ok_empty
        split: if_splits option.splits intro!: list_all_js_set)
qed

lemma toggleEdge_rotation_inv:
  "rotation_inv (board ed) \<Longrightarrow> toggleEdge cfg ed d x y = (Next b, ed') \<Longrightarrow> rotation_inv b"
  by (auto simp: toggleEdge_def Let_def rotation_inv_def
      split: if_splits option.splits EdgeDir.splits)

lemma updater_rotation_inv:
  "rotation_inv (board ed) \<Longrightarrow> boardUpdater cfg ed pick = (Next b, ed') \<Longrightarrow> rotation_inv b"
  by (cases pick)
    (auto split: if_splits
      dest: paintCell_rotation_inv placeObject_rotation_inv toggleEdge_rotation_inv)

lemma applyPick_rotation_inv:
  assumes "rotation_inv (board ed)" and "applyPick cfg ed pick = Some ed'"
  shows "rotation_inv (board ed')"
  using applyPick_cases[OF assms(2)] assms(1) updater_rotation_inv[of ed cfg pick "board ed'"]
  by (auto simp: rotation_inv_def)

lemma rotation_inv_empty: "rotation_inv makeEmptyState"
  by (simp add: rotation_inv_def makeEmptyState_def list_all_iff rotation_ok_empty)

lemma updater_customObjects: "customObjects (snd (boardUpdater cfg ed pick)) = customObjects ed"
  by (cases pick)
    (auto simp: paintCell_def placeObject_def toggleEdge_def Let_def clearLightSelection_def
      split: option.splits EdgeDir.splits)

lemma toggleCustom_ok:
  assumes "list_all custom_ok (customObjects ed)" and "in_grid x y"
  shows "list_all custom_ok (customObjects (toggleCustom name ed x y))"
proof (cases "List.extract (\<lambda>c. c_x c = of_int x \<and> c_y c = of_int y) (customObjects ed)")
  case None
  have "custom_ok \<lparr>c_id = nextCustomId ed, c_name = name, c_url = JStr name,
                 c_x = of_int x, c_y = of_int y, c_scale = 1, c_yOffset = 0,
                 c_rotation = 0\<rparr>"
    using assms(2)
    by (simp add: custom_ok_def in_grid_def GRID_W_def GRID_H_def fl_three_tenths)
  then show ?thesis using None assms(1) by (simp add: toggleCustom_def)
next
  case (Some r)
  obtain before removed after where r: "r = (before, removed, after)" by (cases r)
  have "customObjects ed = before @ removed # after"
    using Some r by (simp add: extract_Some_iff)
  then show ?thesis using Some r assms(1) by (simp add: toggleCustom_def)
qed

lemma applyPick_custom_ok:
  assumes "list_all custom_ok (customObjects ed)" and "valid_pick pick"
    and "applyPick cfg ed pick = Some ed'"
  shows "list_all custom_ok (customObjects ed')"
proof (cases "customPath cfg pick")
  case True
  then obtain x y where p: "pick = CellPick x y"
    by (cases pick) (auto simp: customPath_def)
  then have g: "in_grid x y" using assms(2) by simp
  show ?thesis
    using True p assms(1,3) toggleCustom_ok[OF assms(1) g]
    by (auto simp: applyPick_def split: option.splits if_splits)
next
  case False
  obtain r e where u: "boardUpdater cfg ed pick = (r, e)"
    by (cases "boardUpdater cfg ed pick")
  have e: "customObjects e = customObjects ed"
    using updater_customObjects[of cfg ed pick] u by simp
  show ?thesis using assms(1,3) False u e by (cases r) (auto simp: applyPick_def)
qed

lemma dragMove_ok:
  assumes "list_all custom_ok (customObjects ed)" and "in_grid x y"
  shows "list_all custom_ok (customObjects (dragMove i x y ed))"
proof -
  have "custom_ok (c\<lparr>c_x := of_int x, c_y := of_int y\<rparr>)" if "custom_ok c" for c
    using that assms(2) by (simp add: custom_ok_def in_grid_def GRID_W_def GRID_H_def)
  then show ?thesis using assms(1) by (auto simp: dragMove_def list_all_iff)
qed

lemma dragScale_ok:
  assumes "list_all custom_ok (customObjects ed)"
  shows "list_all custom_ok (customObjects (dragScale i dy ed))"
proof -
  have "custom_ok (c\<lparr>c_scale := clamp (fl (c_scale c + dy)) (fl (3 / 10)) 3\<rparr>)"
    if "custom_ok c" for c
    using that clamp_range[of "fl (3 / 10)" "3::real" "fl (c_scale c + dy)"]
    by (simp add: custom_ok_def fl_three_tenths)
  then show ?thesis using assms by (auto simp: dragScale_def list_all_iff)
qed

lemma session_inv_init: "session_inv (initEditor makeEmptyState)"
  by (simp add: session_inv_def initEditor_def wf_empty rotation_inv_empty)

lemma act_inv:
  assumes "session_inv ed" and "valid_action a"
  shows "\<exists>ed'. act ed a = Some ed' \<and> session_inv ed'"
proof (cases a)
  case (Edit cfg pick)
  then have v: "valid_pick pick" using assms(2) by simp
  obtain ed' where a': "applyPick cfg ed pick = Some ed'"
    using applyPick_total[of ed pick cfg] assms(1) v by (auto simp: session_inv_def)
  have "session_inv ed'"
    using assms(1) v a' applyPick_wf[of ed cfg pick ed'] applyPick_rotation_inv[of ed cfg pick ed']
      applyPick_custom_ok[of ed pick cfg ed']
    by (simp add: session_inv_def)
  then show ?thesis using Edit a' by simp
next
  case (DragMove i x y)
  then show ?thesis using assms dragMove_ok[of ed x y i]
    by (simp add: session_inv_def) (simp add: dragMove_def)
next
  case (DragScale i dy)
  then show ?thesis using assms dragScale_ok[of ed i dy]
    by (simp add: session_inv_def) (simp add: dragScale_def)
next
  case Reset
  then show ?thesis using assms
    by (simp add: session_inv_def resetAll_def wf_empty rotation_inv_empty)
qed

lemma session_keeps_inv:
  "session_inv ed \<Longrightarrow> list_all valid_action acts \<Longrightarrow>
     \<exists>ed'. session ed acts = Some ed' \<and> session_inv ed'"
proof (induction acts arbitrary: ed)
  case Nil
  then show ?case by simp
next
  case (Cons a acts)
  then obtain ed1 where 1: "act ed a = Some ed1" "session_inv ed1"
    using act_inv[of ed a] by auto
  then show ?case using Cons.IH[of ed1] Cons.prems by simp
qed

section \<open>Export, then import\<close>

lemma those_map_Some:
  "list_all (\<lambda>x. f x = Some x) xs \<Longrightarrow> those (map f xs) = Some xs"
  by (induction xs) simp_all

lemma cell_roundtrip: "cell_of_js (cell_js c) = Some c"
  by (cases c) simp_all

lemma edge_roundtrip: "edge_of_js (edge_js e) = Some e"
  by (cases e) simp_all

lemma objType_roundtrip: "objType_of_js (objType_js t) = Some t"
  by (cases t) simp_all

lemma light_roundtrip: "light_of_js (light_js l) = Some l"
  by (simp add: light_of_js_def light_js_def)

lemma rotation_roundtrip:
  "rotation_ok ob \<Longrightarrow> rotation_of_js (JNum (of_nat (rotation ob))) = Some (rotation ob)"
  by (auto simp: rotation_ok_def)

lemma object_roundtrip:
  assumes "rotation_ok ob"
  shows "object_of_js (object_js ob) = Some ob"
proof (cases "light ob")
  case None
  then show ?thesis
    using rotation_roundtrip[OF assms]
    by (simp add: object_of_js_def object_js_def objType_roundtrip)
next
  case (Some l)
  obtain kvs where k: "light_js l = JObj kvs" by (simp add: light_js_def)
  have d: "light_of_js (JObj kvs) = Some l" using light_roundtrip[of l] k by simp
  show ?thesis
    using rotation_roundtrip[OF assms] Some k d
    by (simp add: object_of_js_def object_js_def objType_roundtrip)
qed

lemma typedBoard_rawBoard:
  assumes "rotation_inv b"
  shows "typedBoard (rawBoard b) = Some b"
proof -
  have c: "those (map (cell_of_js \<circ> cell_js) (cells b)) = Some (cells b)"
    by (rule those_map_Some) (simp add: list_all_iff cell_roundtrip)
  have h: "those (map (edge_of_js \<circ> edge_js) (hEdges b)) = Some (hEdges b)"
    by (rule those_map_Some) (simp add: list_all_iff edge_roundtrip)
  have v: "those (map (edge_of_js \<circ> edge_js) (vEdges b)) = Some (vEdges b)"
    by (rule those_map_Some) (simp add: list_all_iff edge_roundtrip)
  have o: "those (map (object_of_js \<circ> object_js) (objects b)) = Some (objects b)"
    using assms
    by (intro those_map_Some) (simp add: rotation_inv_def list_all_iff object_roundtrip)
  show ?thesis using c h v o by (simp add: typedBoard_def rawBoard_def)
qed

lemma acceptsCustom_custom_js: "acceptsCustom (custom_js c)"
  by (simp add: acceptsCustom_def custom_js_def)

lemma loadCustom_custom_js:
  assumes "custom_ok c"
  shows "loadCustom n (custom_js c) = (c, n)"
proof -
  have x: "clamp (c_x c) 0 3 = c_x c" "clamp (c_y c) 0 3 = c_y c"
    "clamp (c_scale c) (fl (3 / 10)) 3 = c_scale c"
    "clamp (c_yOffset c) (- 1) 3 = c_yOffset c"
    using assms by (simp_all add: custom_ok_def clamp_id)
  have u: "c_url c = JStr (c_name c)" using assms by (simp add: custom_ok_def)
  show ?thesis
    using x u
    by (simp add: loadCustom_def custom_js_def numberOr_def stringOf_def GRID_W_def GRID_H_def)
qed

lemma loadCustoms_custom_js:
  "list_all custom_ok cs \<Longrightarrow> loadCustoms n (map custom_js cs) = (cs, n)"
  by (induction cs) (simp_all add: loadCustom_custom_js)

lemma filter_accepts: "filter acceptsCustom (map custom_js cs) = map custom_js cs"
  by (induction cs) (simp_all add: acceptsCustom_custom_js)

lemma importJson_exportJson:
  assumes "wf_board b" and "list_all custom_ok cs"
  shows "importJson prev n (exportJson b cs)
       = Inr \<lparr>ld_board = rawBoard b, ld_customObjects = cs, ld_nextCustomId = n\<rparr>"
proof -
  have len: "int (length (l_cells (rawBoard b))) = GRID_W * GRID_H"
    "int (length (l_hEdges (rawBoard b))) = (GRID_H + 1) * GRID_W"
    "int (length (l_vEdges (rawBoard b))) = GRID_H * (GRID_W + 1)"
    "int (length (l_objects (rawBoard b))) = GRID_W * GRID_H"
    using assms(1) by (simp_all add: wf_board_def rawBoard_def)
  have l: "loadCustoms n (filter acceptsCustom (map custom_js cs)) = (cs, n)"
    using assms(2) by (simp add: filter_accepts loadCustoms_custom_js)
  show ?thesis
    using len l by (simp add: importJson_def exportJson_def Let_def)
qed

text \<open>
  C8. Start from the default editor (empty board, no placed models) and run any list of
  valid actions: edits by a pick inside the grid under any tool settings (which place
  and remove models too), drags that move or rescale a placed model, resets. The
  session ends in an editor state, and importing the document exported from it signals
  no error and gives back the board and the placement list: the loaded board is the
  exported board entry for entry, it reads back at its declared type as the very
  \<open>BoardState\<close>, and the loaded placements are the exported ones.
\<close>

theorem export_import_roundtrip:
  assumes "list_all valid_action acts"
  shows "\<exists>ed. session (initEditor makeEmptyState) acts = Some ed
      \<and> importJson prev n (exportJson (board ed) (customObjects ed))
          = Inr \<lparr>ld_board = rawBoard (board ed), ld_customObjects = customObjects ed,
                 ld_nextCustomId = n\<rparr>
      \<and> typedBoard (rawBoard (board ed)) = Some (board ed)"
proof -
  obtain ed where s: "session (initEditor makeEmptyState) acts = Some ed" and i: "session_inv ed"
    using session_keeps_inv[OF session_inv_init assms] by blast
  have "importJson prev n (exportJson (board ed) (customObjects ed))
          = Inr \<lparr>ld_board = rawBoard (board ed), ld_customObjects = customObjects ed,
                 ld_nextCustomId = n\<rparr>"
    using i by (intro importJson_exportJson) (simp_all add: session_inv_def)
  moreover have "typedBoard (rawBoard (board ed)) = Some (board ed)"
    using i by (intro typedBoard_rawBoard) (simp add: session_inv_def)
  ultimately show ?thesis using s by blast
qed

theorem export_import_roundtrip_witness:
  "list_all valid_action demoActions
   \<and> (\<exists>ed. session (initEditor makeEmptyState) demoActions = Some ed
        \<and> importJson [] 1 (exportJson (board ed) (customObjects ed))
            = Inr \<lparr>ld_board = rawBoard (board ed), ld_customObjects = customObjects ed,
                   ld_nextCustomId = 1\<rparr>
        \<and> typedBoard (rawBoard (board ed)) = Some (board ed)
        \<and> objectAt (board ed) 1 1 = Some \<lparr>type = Bridge, rotation = 0, light = None\<rparr>
        \<and> customObjects ed
            = [\<lparr>c_id = 1, c_name = ''chest'', c_url = JStr ''chest'', c_x = 3, c_y = 0,
                c_scale = 3, c_yOffset = 0, c_rotation = 0\<rparr>])"
proof -
  have six: "fl 6 = 6" by code_simp
  have v: "list_all valid_action demoActions"
    by (simp add: demoActions_def in_grid_def GRID_W_def GRID_H_def)
  obtain ed where s: "session (initEditor makeEmptyState) demoActions = Some ed"
    and r: "importJson [] 1 (exportJson (board ed) (customObjects ed))
            = Inr \<lparr>ld_board = rawBoard (board ed), ld_customObjects = customObjects ed,
                   ld_nextCustomId = 1\<rparr>"
    and t: "typedBoard (rawBoard (board ed)) = Some (board ed)"
    using export_import_roundtrip[OF v, of "[]" 1] by blast
  have e: "ed = \<lparr>board = bridgeBoard,
        customObjects = [\<lparr>c_id = 1, c_name = ''chest'', c_url = JStr ''chest'', c_x = 3,
                          c_y = 0, c_scale = 3, c_yOffset = 0, c_rotation = 0\<rparr>],
        selectedCustomId = Some 1, nextCustomId = 2, selectedLightCell = None,
        editingLight = None, status = Some (CellaDipinta 1 1 Water)\<rparr>"
    using s
    by (simp add: demoActions_def chestCfg_def toolCfg_def initEditor_def makeEmptyState_def
        bridgeBoard_def applyPick_def customPath_def paintCell_def placeObject_def six
        fl_three_tenths
        toggleCustom_def dragScale_def clamp_def emptyObject_def clearLightSelection_def
        extract_Nil_code extract_Cons_code js_get_def js_set_def
        in_bounds_def idxCell_def GRID_W_def GRID_H_def Let_def numeral_eq_Suc)
  have o: "objectAt bridgeBoard 1 1 = Some \<lparr>type = Bridge, rotation = 0, light = None\<rparr>"
    by (simp add: bridgeBoard_def makeEmptyState_def objectAt_def js_get_def js_set_def
        in_bounds_def idxCell_def GRID_W_def GRID_H_def numeral_eq_Suc)
  show ?thesis using v s r t o e by auto
qed

section \<open>The store after the copy\<close>

lemma those_eq_Some: "those zs = Some ys \<longleftrightarrow> zs = map Some ys"
proof (induction zs arbitrary: ys)
  case Nil
  then show ?case by auto
next
  case (Cons z zs)
  then show ?case by (cases z; cases ys) (auto split: option.splits)
qed

lemma length_layout:
  "length (layout h cs hs vs obs rs extra) = length h + length obs + 5 + length extra"
  by (simp add: layout_def)

lemma take_layout: "take (length h) (layout h cs hs vs obs rs extra) = h"
  by (simp add: layout_def)

lemma layout_board:
  "readRef (layout h cs hs vs obs rs extra) (length h + length obs + 4)
     = Some (HBoard (length h) (length h + 1) (length h + 2) (length h + 3 + length obs))"
  by (simp add: readRef_def layout_def nth_append)

lemma layout_cells: "readRef (layout h cs hs vs obs rs extra) (length h) = Some (HCells cs)"
  by (simp add: readRef_def layout_def nth_append)

lemma layout_hEdges:
  "readRef (layout h cs hs vs obs rs extra) (Suc (length h)) = Some (HEdges hs)"
  by (simp add: readRef_def layout_def nth_append)

lemma layout_vEdges:
  "readRef (layout h cs hs vs obs rs extra) (Suc (Suc (length h))) = Some (HEdges vs)"
  by (simp add: readRef_def layout_def nth_append)

lemma layout_objects:
  "readRef (layout h cs hs vs obs rs extra) (length h + 3 + length obs) = Some (HObjects rs)"
  by (simp add: readRef_def layout_def nth_append)

lemma layout_object:
  "j < length obs \<Longrightarrow>
     readRef (layout h cs hs vs obs rs extra) (length h + 3 + j) = Some (HObject (obs ! j))"
  by (simp add: readRef_def layout_def nth_append)

lemma layout_extra:
  "j < length extra \<Longrightarrow>
     readRef (layout h cs hs vs obs rs extra) (length h + length obs + 5 + j) = Some (extra ! j)"
  by (simp add: readRef_def layout_def nth_append)

lemma layout_set_cells:
  "(layout h cs hs vs obs rs extra)[length h := HCells cs']
     = layout h cs' hs vs obs rs extra"
  by (simp add: layout_def list_update_append)

lemma layout_set_hEdges:
  "(layout h cs hs vs obs rs extra)[Suc (length h) := HEdges hs']
     = layout h cs hs' vs obs rs extra"
  by (simp add: layout_def list_update_append)

lemma layout_set_vEdges:
  "(layout h cs hs vs obs rs extra)[Suc (Suc (length h)) := HEdges vs']
     = layout h cs hs vs' obs rs extra"
  by (simp add: layout_def list_update_append)

lemma layout_set_object:
  "j < length obs \<Longrightarrow>
     (layout h cs hs vs obs rs extra)[length h + 3 + j := HObject v]
       = layout h cs hs vs (obs[j := v]) rs extra"
  by (simp add: layout_def list_update_append map_update)

lemma layout_set_objects:
  "(layout h cs hs vs obs rs extra)[length h + 3 + length obs := HObjects rs']
     = layout h cs hs vs obs rs' extra"
  by (simp add: layout_def list_update_append)

lemma layout_alloc:
  "layout h cs hs vs obs rs extra @ [v] = layout h cs hs vs obs rs (extra @ [v])"
  by (simp add: layout_def)

lemma layout_refs:
  "cellsRef (layout h cs hs vs obs rs extra) (length h + length obs + 4) = Some (length h)"
  "hEdgesRef (layout h cs hs vs obs rs extra) (length h + length obs + 4)
     = Some (Suc (length h))"
  "vEdgesRef (layout h cs hs vs obs rs extra) (length h + length obs + 4)
     = Some (Suc (Suc (length h)))"
  "objectsRef (layout h cs hs vs obs rs extra) (length h + length obs + 4)
     = Some (length h + 3 + length obs)"
  by (simp_all add: cellsRef_def hEdgesRef_def vEdgesRef_def objectsRef_def layout_board)

lemma layout_arrays:
  "cellsIn (layout h cs hs vs obs rs extra) (length h) = Some cs"
  "edgesIn (layout h cs hs vs obs rs extra) (Suc (length h)) = Some hs"
  "edgesIn (layout h cs hs vs obs rs extra) (Suc (Suc (length h))) = Some vs"
  "objectRefsIn (layout h cs hs vs obs rs extra) (length h + 3 + length obs) = Some rs"
  by (simp_all add: cellsIn_def edgesIn_def objectRefsIn_def layout_cells layout_hEdges
      layout_vEdges layout_objects)

lemma layout_objectIn:
  "j < length obs \<Longrightarrow>
     objectIn (layout h cs hs vs obs rs extra) (length h + 3 + j) = Some (obs ! j)"
  by (simp add: objectIn_def layout_object)

lemma layout_objectIn_extra:
  "objectIn (layout h cs hs vs obs rs [HObject v]) (length h + length obs + 5) = Some v"
  using layout_extra[of 0 "[HObject v]" h cs hs vs obs rs] by (simp add: objectIn_def)

lemma layout_copied_objects:
  "those (map (objectIn (layout h cs hs vs obs rs extra))
       [length h + 3 ..< length h + 3 + length obs]) = Some obs"
  unfolding those_eq_Some
  by (rule nth_equalityI) (simp_all add: layout_objectIn)

lemma layout_replaced_object:
  assumes "in_bounds obs i"
  shows "those (map (objectIn (layout h cs hs vs obs rs [HObject v]))
           (js_set [length h + 3 ..< length h + 3 + length obs] i (length h + length obs + 5)))
         = Some (js_set obs i v)"
proof -
  have i: "nat i < length obs" using assms by (simp add: in_bounds_def nat_less_iff)
  show ?thesis
    unfolding those_eq_Some js_set_def
  proof (rule nth_equalityI)
    show "length (map (objectIn (layout h cs hs vs obs rs [HObject v]))
             ([length h + 3..<length h + 3 + length obs][nat i := length h + length obs + 5]))
          = length (map Some (obs[nat i := v]))"
      by simp
  next
    fix j
    assume "j < length (map (objectIn (layout h cs hs vs obs rs [HObject v]))
             ([length h + 3..<length h + 3 + length obs][nat i := length h + length obs + 5]))"
    then have j: "j < length obs" by simp
    show "map (objectIn (layout h cs hs vs obs rs [HObject v]))
             ([length h + 3..<length h + 3 + length obs][nat i := length h + length obs + 5]) ! j
          = map Some (obs[nat i := v]) ! j"
      using j i by (cases "j = nat i") (simp_all add: layout_objectIn layout_objectIn_extra)
  qed
qed

lemma heapBoard_layout:
  assumes "those (map (objectIn (layout h cs hs vs obs rs extra)) rs) = Some obs'"
  shows "heapBoard (layout h cs hs vs obs rs extra) (length h + length obs + 4)
       = Some \<lparr>cells = cs, hEdges = hs, vEdges = vs, objects = obs'\<rparr>"
  using assms by (simp add: heapBoard_def layout_refs layout_arrays)

lemma heapBoardD:
  assumes "heapBoard h p = Some b"
  shows "\<exists>c e v os rs. readRef h p = Some (HBoard c e v os)
           \<and> readRef h c = Some (HCells (cells b)) \<and> readRef h e = Some (HEdges (hEdges b))
           \<and> readRef h v = Some (HEdges (vEdges b)) \<and> readRef h os = Some (HObjects rs)
           \<and> those (map (objectIn h) rs) = Some (objects b)"
  using assms
  by (auto simp: heapBoard_def cellsRef_def hEdgesRef_def vEdgesRef_def objectsRef_def
      cellsIn_def edgesIn_def objectRefsIn_def
      split: option.splits hval.splits Option.bind_splits)

lemma copyBoard_layout:
  assumes "heapBoard h prev = Some b"
  shows "copyBoard h prev
       = Some (length h + length (objects b) + 4,
               layout h (cells b) (hEdges b) (vEdges b) (objects b)
                 [length h + 3 ..< length h + 3 + length (objects b)] [])"
  using assms by (simp add: copyBoard_def layout_def Let_def)

section \<open>Reads and writes through \<open>next\<close>\<close>

lemma js_get_upt:
  "js_get [m ..< m + k] i = (if 0 \<le> i \<and> i < int k then Some (m + nat i) else None)"
  by (auto simp: js_get_def in_bounds_def nat_less_iff)

lemma getCell_layout:
  "getCell (layout h cs hs vs obs rs extra) (length h + length obs + 4) i = js_get cs i"
  by (simp add: getCell_def layout_refs layout_arrays)

lemma setCell_layout:
  "setCell (layout h cs hs vs obs rs extra) (length h + length obs + 4) i v
     = (if in_bounds cs i then Some (layout h (js_set cs i v) hs vs obs rs extra) else None)"
  by (simp add: setCell_def layout_refs layout_arrays layout_set_cells)

lemma getEdge_layout:
  "getEdge (layout h cs hs vs obs rs extra)
       (hEdgesRef (layout h cs hs vs obs rs extra) (length h + length obs + 4)) i
     = js_get hs i"
  "getEdge (layout h cs hs vs obs rs extra)
       (vEdgesRef (layout h cs hs vs obs rs extra) (length h + length obs + 4)) i
     = js_get vs i"
  by (simp_all add: getEdge_def layout_refs layout_arrays)

lemma setEdge_layout:
  "setEdge (layout h cs hs vs obs rs extra)
       (hEdgesRef (layout h cs hs vs obs rs extra) (length h + length obs + 4)) i v
     = (if in_bounds hs i then Some (layout h cs (js_set hs i v) vs obs rs extra) else None)"
  "setEdge (layout h cs hs vs obs rs extra)
       (vEdgesRef (layout h cs hs vs obs rs extra) (length h + length obs + 4)) i v
     = (if in_bounds vs i then Some (layout h cs hs (js_set vs i v) obs rs extra) else None)"
  by (simp_all add: setEdge_def layout_refs layout_arrays layout_set_hEdges layout_set_vEdges)

lemma getObject_layout:
  "getObject (layout h cs hs vs obs [length h + 3 ..< length h + 3 + length obs] extra)
       (length h + length obs + 4) i
     = js_get obs i"
  by (simp add: getObject_def layout_refs layout_arrays js_get_upt layout_objectIn
      js_get_def in_bounds_def nat_less_iff)

lemma setObject_layout:
  "setObject (layout h cs hs vs obs [length h + 3 ..< length h + 3 + length obs] [])
       (length h + length obs + 4) i v
     = (if in_bounds obs i
        then Some (layout h cs hs vs obs
                     (js_set [length h + 3 ..< length h + 3 + length obs] i
                        (length h + length obs + 5))
                     [HObject v])
        else None)"
  by (simp add: setObject_def layout_refs layout_arrays length_layout layout_alloc
      layout_set_objects in_bounds_def)

lemma writeObject_layout:
  "writeObject (layout h cs hs vs obs [length h + 3 ..< length h + 3 + length obs] extra)
       (length h + length obs + 4) i v
     = (if in_bounds obs i
        then Some (layout h cs hs vs (js_set obs i v)
                     [length h + 3 ..< length h + 3 + length obs] extra)
        else None)"
  by (simp add: writeObject_def layout_refs layout_arrays js_get_upt layout_objectIn
      layout_set_object js_set_def in_bounds_def nat_less_iff)

section \<open>The two updaters agree\<close>

lemma board_eq:
  "\<lparr>cells = cs, hEdges = hEdges b, vEdges = vEdges b, objects = obs\<rparr>
     = b\<lparr>cells := cs, objects := obs\<rparr>"
  "\<lparr>cells = cells b, hEdges = hs, vEdges = vEdges b, objects = objects b\<rparr> = b\<lparr>hEdges := hs\<rparr>"
  "\<lparr>cells = cells b, hEdges = hEdges b, vEdges = vs, objects = objects b\<rparr> = b\<lparr>vEdges := vs\<rparr>"
  "\<lparr>cells = cells b, hEdges = hEdges b, vEdges = vEdges b, objects = obs\<rparr>
     = b\<lparr>objects := obs\<rparr>"
  by (cases b; simp)+

lemma heapBoard_copied:
  "k = length obs \<Longrightarrow>
   heapBoard (layout h cs hs vs obs [length h + 3 ..< length h + 3 + k] extra)
       (length h + k + 4)
     = Some \<lparr>cells = cs, hEdges = hs, vEdges = vs, objects = obs\<rparr>"
  by (simp add: heapBoard_layout layout_copied_objects)

lemma heapBoard_replaced:
  "in_bounds obs i \<Longrightarrow>
   heapBoard (layout h cs hs vs obs
                (js_set [length h + 3 ..< length h + 3 + length obs] i
                   (length h + length obs + 5))
                [HObject v])
       (length h + length obs + 4)
     = Some \<lparr>cells = cs, hEdges = hs, vEdges = vs, objects = js_set obs i v\<rparr>"
  by (rule heapBoard_layout) (rule layout_replaced_object)

lemma storeUpdater_paintCell:
  assumes "heapBoard h prev = Some (board ed)" and "mode cfg = Cells"
  shows "case fst (paintCell cfg ed x y) of
           Prev \<Rightarrow> False
         | Next b' \<Rightarrow>
             (\<exists>h'. storeUpdater cfg h prev (CellPick x y)
                      = Some (length h + length (objects (board ed)) + 4, h')
                  \<and> take (length h) h' = h
                  \<and> heapBoard h' (length h + length (objects (board ed)) + 4) = Some b')
         | OutOfGrid \<Rightarrow> storeUpdater cfg h prev (CellPick x y) = None"
proof (cases "in_bounds (cells (board ed)) (idxCell x y)")
  case False
  then show ?thesis
    using assms(2)
    by (simp add: paintCell_def storeUpdater_def copyBoard_layout[OF assms(1)] Let_def
        setCell_layout)
next
  case True
  note ic = this
  show ?thesis
  proof (cases "cellBrush cfg = Floor
      \<and> map_option type (js_get (objects (board ed)) (idxCell x y)) = Some Bridge")
    case False
    then show ?thesis
      using assms(2) ic
      by (auto simp: paintCell_def storeUpdater_def copyBoard_layout[OF assms(1)] Let_def
          setCell_layout getObject_layout take_layout heapBoard_copied board_eq length_js_set)
  next
    case True
    then have io: "in_bounds (objects (board ed)) (idxCell x y)"
      by (auto dest: js_get_in_bounds)
    show ?thesis
      using assms(2) ic True io
      by (simp add: paintCell_def storeUpdater_def copyBoard_layout[OF assms(1)] Let_def
          setCell_layout getObject_layout setObject_layout take_layout heapBoard_replaced
          board_eq length_js_set)
  qed
qed

lemma storeUpdater_placeObject:
  assumes "heapBoard h prev = Some (board ed)" and "mode cfg = Objects"
  shows "case fst (placeObject cfg ed x y) of
           Prev \<Rightarrow>
             (\<exists>h'. storeUpdater cfg h prev (CellPick x y) = Some (prev, h')
                  \<and> take (length h) h' = h)
         | Next b' \<Rightarrow>
             (\<exists>h'. storeUpdater cfg h prev (CellPick x y)
                      = Some (length h + length (objects (board ed)) + 4, h')
                  \<and> take (length h) h' = h
                  \<and> heapBoard h' (length h + length (objects (board ed)) + 4) = Some b')
         | OutOfGrid \<Rightarrow> storeUpdater cfg h prev (CellPick x y) = None"
proof (cases "js_get (objects (board ed)) (idxCell x y)")
  case None
  then have "\<not> in_bounds (objects (board ed)) (idxCell x y)"
    by (simp add: js_get_def split: if_splits)
  then show ?thesis
    using assms(2) None
    by (simp add: placeObject_def storeUpdater_def copyBoard_layout[OF assms(1)] Let_def
        getCell_layout getObject_layout setObject_layout take_layout)
next
  case (Some ob)
  then have io: "in_bounds (objects (board ed)) (idxCell x y)"
    by (rule js_get_in_bounds)
  show ?thesis
    using assms(2) Some io
    by (simp add: placeObject_def storeUpdater_def copyBoard_layout[OF assms(1)] Let_def
        getCell_layout getObject_layout setObject_layout writeObject_layout take_layout
        heapBoard_copied heapBoard_replaced board_eq length_js_set)
qed

lemma storeUpdater_toggleEdge:
  assumes "heapBoard h prev = Some (board ed)"
  shows "case fst (toggleEdge cfg ed d x y) of
           Prev \<Rightarrow>
             (\<exists>h'. storeUpdater cfg h prev (EdgePick d x y) = Some (prev, h')
                  \<and> take (length h) h' = h)
         | Next b' \<Rightarrow>
             (\<exists>h'. storeUpdater cfg h prev (EdgePick d x y)
                      = Some (length h + length (objects (board ed)) + 4, h')
                  \<and> take (length h) h' = h
                  \<and> heapBoard h' (length h + length (objects (board ed)) + 4) = Some b')
         | OutOfGrid \<Rightarrow> storeUpdater cfg h prev (EdgePick d x y) = None"
proof (cases d)
  case H
  then show ?thesis
    by (cases "js_get (hEdges (board ed)) (idxHEdge x y)")
      (auto simp: toggleEdge_def storeUpdater_def copyBoard_layout[OF assms] Let_def
        getEdge_layout setEdge_layout take_layout heapBoard_copied board_eq
        dest: js_get_in_bounds)
next
  case V
  then show ?thesis
    by (cases "js_get (vEdges (board ed)) (idxVEdge x y)")
      (auto simp: toggleEdge_def storeUpdater_def copyBoard_layout[OF assms] Let_def
        getEdge_layout setEdge_layout take_layout heapBoard_copied board_eq
        dest: js_get_in_bounds)
qed

lemma storeUpdater_refines:
  assumes "heapBoard h prev = Some (board ed)"
  shows "case fst (boardUpdater cfg ed pick) of
           Prev \<Rightarrow>
             (\<exists>h'. storeUpdater cfg h prev pick = Some (prev, h') \<and> take (length h) h' = h)
         | Next b' \<Rightarrow>
             (\<exists>h'. storeUpdater cfg h prev pick
                      = Some (length h + length (objects (board ed)) + 4, h')
                  \<and> take (length h) h' = h
                  \<and> heapBoard h' (length h + length (objects (board ed)) + 4) = Some b')
         | OutOfGrid \<Rightarrow> storeUpdater cfg h prev pick = None"
proof (cases pick)
  case (CellPick x y)
  show ?thesis
  proof (cases "mode cfg")
    case Cells
    then show ?thesis
      using storeUpdater_paintCell[OF assms, of cfg x y] CellPick
      by (auto split: outcome.splits)
  next
    case Objects
    then show ?thesis
      using storeUpdater_placeObject[OF assms, of cfg x y] CellPick
      by (cases "fst (placeObject cfg ed x y)") auto
  next
    case Edges
    then show ?thesis
      using CellPick
      by (simp add: storeUpdater_def copyBoard_layout[OF assms] take_layout)
  qed
next
  case (EdgePick d x y)
  show ?thesis
    unfolding EdgePick using storeUpdater_toggleEdge[OF assms, of cfg d x y] by simp
qed

lemma readRef_frame:
  assumes "readRef h r = Some v" and "take (length h) h' = h"
  shows "readRef h' r = Some v"
proof -
  have r: "r < length h" "h ! r = v" using assms(1) by (auto simp: readRef_def split: if_splits)
  have l: "length h \<le> length h'"
    using assms(2) by (metis length_take min.cobounded1)
  have "h' ! r = take (length h) h' ! r" using r(1) by simp
  then show ?thesis using r l assms(2) by (simp add: readRef_def)
qed

lemma heapBoard_frame:
  assumes "heapBoard h p = Some b" and "take (length h) h' = h"
  shows "heapBoard h' p = Some b"
proof -
  obtain c e v os rs where d: "readRef h p = Some (HBoard c e v os)"
    "readRef h c = Some (HCells (cells b))" "readRef h e = Some (HEdges (hEdges b))"
    "readRef h v = Some (HEdges (vEdges b))" "readRef h os = Some (HObjects rs)"
    "those (map (objectIn h) rs) = Some (objects b)"
    using heapBoardD[OF assms(1)] by blast
  have ob: "map (objectIn h') rs = map (objectIn h) rs"
  proof (rule map_cong[OF refl])
    fix r assume "r \<in> set rs"
    then have "objectIn h r \<in> set (map (objectIn h) rs)" by simp
    then have "objectIn h r \<in> set (map Some (objects b))"
      using d(6) by (simp only: those_eq_Some)
    then obtain o1 where "objectIn h r = Some o1" by auto
    then have "readRef h r = Some (HObject o1)"
      by (auto simp: objectIn_def split: option.splits hval.splits)
    then have "readRef h' r = Some (HObject o1)" using assms(2) by (rule readRef_frame)
    then show "objectIn h' r = objectIn h r"
      using \<open>objectIn h r = Some o1\<close> by (simp add: objectIn_def)
  qed
  have t: "those (map (objectIn h') rs) = Some (objects b)"
    using d(6) by (simp only: ob)
  show ?thesis
    using d(1-5)[THEN readRef_frame[OF _ assms(2)]] t
    by (simp add: heapBoard_def cellsRef_def hEdgesRef_def vEdgesRef_def objectsRef_def
        cellsIn_def edgesIn_def objectRefsIn_def)
qed

lemma heapBoard_allocated: "heapBoard h p = Some b \<Longrightarrow> p < length h"
  by (auto simp: readRef_def split: if_splits dest!: heapBoardD)

lemma storeOf_layout:
  "storeOf b
     = layout [] (cells b) (hEdges b) (vEdges b) (objects b) [3 ..< 3 + length (objects b)] []"
  by (simp add: storeOf_def layout_def)

lemma heapBoard_storeOf: "heapBoard (storeOf b) (length (objects b) + 4) = Some b"
  using heapBoard_copied[of "length (objects b)" "objects b" "[]" "cells b" "hEdges b"
      "vEdges b" "[]"]
  by (simp add: storeOf_layout)

text \<open>
  Copy on write, for every pick: whatever reference the updater returns, each cell of
  the store it was given is as it was, and so is the board read through \<open>prev\<close>.
\<close>

lemma storeUpdater_copy_on_write:
  assumes "heapBoard h prev = Some b" and "storeUpdater cfg h prev pick = Some (r, h')"
  shows "take (length h) h' = h \<and> heapBoard h' prev = Some b"
proof -
  have b: "heapBoard h prev = Some (board (initEditor b))" using assms(1) by (simp add: initEditor_def)
  have "take (length h) h' = h"
    using storeUpdater_refines[OF b, of cfg pick] assms(2)
    by (cases "fst (boardUpdater cfg (initEditor b) pick)") auto
  then show ?thesis using heapBoard_frame[OF assms(1)] by simp
qed

section \<open>Rejected edits leave the board alone\<close>

text \<open>
  C2. When the edit engine turns an edit down (the bridge brush over terrain that is
  neither water nor pit, a cell pick in edges mode, an edge pick outside edges mode),
  the function given to \<open>setBoard\<close> returns \<open>prev\<close> itself and not the copy it built,
  and the board of the editor after \<open>applyPick\<close> is the board before it. On a store:
  the reference returned is the reference \<open>prev\<close>, every cell that was in the store
  before the call holds what it held (the copy \<open>next\<close> is left behind, unreferenced),
  and the board read through \<open>prev\<close> is the same value as before.
\<close>

theorem rejected_edit_keeps_board:
  assumes "rejected cfg (board ed) pick"
  shows "fst (boardUpdater cfg ed pick) = Prev
       \<and> (\<exists>ed'. applyPick cfg ed pick = Some ed' \<and> board ed' = board ed)
       \<and> (\<forall>h prev. heapBoard h prev = Some (board ed) \<longrightarrow>
             (\<exists>h'. storeUpdater cfg h prev pick = Some (prev, h')
                  \<and> take (length h) h' = h
                  \<and> heapBoard h' prev = Some (board ed)))"
proof -
  have p: "fst (boardUpdater cfg ed pick) = Prev"
    using assms by (rule rejected_updater)
  have a: "\<exists>ed'. applyPick cfg ed pick = Some ed' \<and> board ed' = board ed"
    using p rejected_not_custom[OF assms] updater_board[of cfg ed pick]
    by (cases "boardUpdater cfg ed pick") (auto simp: applyPick_def)
  have s: "\<exists>h'. storeUpdater cfg h prev pick = Some (prev, h')
                  \<and> take (length h) h' = h
                  \<and> heapBoard h' prev = Some (board ed)"
    if hb: "heapBoard h prev = Some (board ed)" for h prev
  proof -
    obtain h' where u: "storeUpdater cfg h prev pick = Some (prev, h')"
      using storeUpdater_refines[OF hb, of cfg pick] p by auto
    show ?thesis using u storeUpdater_copy_on_write[OF hb u] by simp
  qed
  show ?thesis using p a s by blast
qed

theorem rejected_edit_keeps_board_witness:
  "rejected (toolCfg Objects Floor Wall Bridge) (board (initEditor makeEmptyState)) (CellPick 1 1)
   \<and> fst (boardUpdater (toolCfg Objects Floor Wall Bridge) (initEditor makeEmptyState)
        (CellPick 1 1)) = Prev
   \<and> (\<exists>ed'. applyPick (toolCfg Objects Floor Wall Bridge) (initEditor makeEmptyState)
          (CellPick 1 1) = Some ed'
        \<and> board ed' = board (initEditor makeEmptyState))
   \<and> heapBoard (storeOf makeEmptyState) 20 = Some makeEmptyState
   \<and> (\<exists>h'. storeUpdater (toolCfg Objects Floor Wall Bridge) (storeOf makeEmptyState) 20
          (CellPick 1 1) = Some (20, h')
        \<and> take (length (storeOf makeEmptyState)) h' = storeOf makeEmptyState
        \<and> heapBoard h' 20 = Some makeEmptyState)"
proof -
  have r: "rejected (toolCfg Objects Floor Wall Bridge) (board (initEditor makeEmptyState))
      (CellPick 1 1)"
    by (simp add: rejected_def toolCfg_def initEditor_def makeEmptyState_def cellAt_def
        js_get_def in_bounds_def idxCell_def GRID_W_def GRID_H_def)
  have b: "board (initEditor makeEmptyState) = makeEmptyState" by (simp add: initEditor_def)
  have "length (objects makeEmptyState) + 4 = 20"
    by (simp add: makeEmptyState_def GRID_W_def GRID_H_def)
  then have hb: "heapBoard (storeOf makeEmptyState) 20 = Some makeEmptyState"
    using heapBoard_storeOf[of makeEmptyState] by simp
  show ?thesis using r rejected_edit_keeps_board[OF r] hb b by auto
qed

end
